theory Spec2Isabelle
  imports Complex_Main "HOL-Library.AList"
begin

section \<open>Values, errors and the console\<close>

text \<open>
  The upstream response body as the program holds it after parsing: a JavaScript value
  that came from JSON. A number is carried by its rational value (every finite double
  is one). An object is the list of its own properties.
\<close>

datatype json =
    JNull
  | JBool bool
  | JNum rat
  | JStr string
  | JArr "json list"
  | JObj "(string \<times> json) list"

text \<open>What \<^verbatim>\<open>if (data)\<close> tests: null, false, 0 and the empty string are falsy.\<close>

fun truthy :: "json \<Rightarrow> bool" where
  "truthy JNull = False"
| "truthy (JBool b) = b"
| "truthy (JNum n) = (n \<noteq> 0)"
| "truthy (JStr s) = (s \<noteq> [])"
| "truthy (JArr xs) = True"
| "truthy (JObj fs) = True"

text \<open>Property read \<^verbatim>\<open>data.c\<close> on a non-null value; \<open>None\<close> is \<^verbatim>\<open>undefined\<close>.\<close>

fun get_prop :: "json \<Rightarrow> string \<Rightarrow> json option" where
  "get_prop (JObj fs) name = map_of fs name"
| "get_prop v name = None"

text \<open>
  Whether converting a value to a string or to a number throws a \<^verbatim>\<open>TypeError\<close>. An
  object that came from JSON converts through \<^verbatim>\<open>Object.prototype.toString\<close> unless it
  has a property \<^verbatim>\<open>toString\<close> of its own, which is no function: then no method gives
  a primitive and the conversion throws. An array converts its elements, null apart.
\<close>

fun to_string_throws :: "json \<Rightarrow> bool" and any_throws :: "json list \<Rightarrow> bool" where
  "to_string_throws (JObj fs) = (map_of fs ''toString'' \<noteq> None)"
| "to_string_throws (JArr xs) = any_throws xs"
| "to_string_throws JNull = False"
| "to_string_throws (JBool b) = False"
| "to_string_throws (JNum n) = False"
| "to_string_throws (JStr s) = False"
| "any_throws [] = False"
| "any_throws (x # xs) = (to_string_throws x \<or> any_throws xs)"

text \<open>A thrown value: an \<^verbatim>\<open>Error\<close> with its message.\<close>

datatype js_error = Error string

fun message :: "js_error \<Rightarrow> string" where
  "message (Error m) = m"

text \<open>
  One console call: the stream and the arguments. A template literal is kept as its
  parts, so that an interpolated value is not rendered to text.
\<close>

datatype stream = Log | Err

datatype part = Str string | Val "json option" | Exn js_error | Time int

type_synonym console_line = "stream \<times> part list"

section \<open>The process state and its environment\<close>

text \<open>One cache entry, \<^verbatim>\<open>{ data, timestamp }\<close>.\<close>

record cached_quote =
  data :: json
  timestamp :: int

text \<open>
  The state of the process. The object \<^verbatim>\<open>quoteCache.data\<close> is a plain object:
  \<open>quoteCache_data\<close> is the list of its own properties, and \<open>quoteCache_proto\<close> is its
  prototype, \<open>None\<close> for \<^verbatim>\<open>Object.prototype\<close>, with which it is created, and \<open>Some p\<close>
  once an assignment to the name \<^verbatim>\<open>__proto__\<close> has put the object \<open>p\<close> in its place.
  \<open>clock\<close> is what \<^verbatim>\<open>Date.now()\<close> returns, in milliseconds, and it never goes back;
  \<open>sent\<close> is the trace of the outbound requests issued so far; \<open>started\<close> is the time
  the process started; \<open>hits\<close> is the store of the rate limiter, the times of the
  requests counted for each client address.
\<close>

record world =
  quoteCache_data :: "(string \<times> cached_quote) list"
  quoteCache_proto :: "cached_quote option"
  quoteCache_lastUpdated :: int
  clock :: int
  started :: int
  console :: "console_line list"
  sent :: "string list"
  hits :: "string \<Rightarrow> int list"

text \<open>
  What comes back for an outbound request: no response at all (a transport error, with
  the message of the error), or a response with its status and its body. The body is
  the text of a JSON value, given by that value, or a text that does not parse as JSON,
  the empty body among them.
\<close>

datatype wire_body = JsonText json | OtherText string

datatype upstream_reply = NoResponse string | Response nat wire_body

text \<open>
  What the program takes from outside during one task: the configured API key (\<open>None\<close>
  when the variable is not set), what comes back for a URL, and the time the request
  takes. The last field is the language's arithmetic where the program does not control
  the operand: \<open>within_window e now v\<close> is the value of \<^verbatim>\<open>now - v < 3 * 60 * 1000\<close> for a
  value \<open>v\<close> that came from JSON (its conversion to a number, the floating-point
  subtraction and the comparison), when the conversion does not throw.
\<close>

record env =
  FINNHUB_API_KEY :: "string option"
  reply :: "string \<Rightarrow> upstream_reply"
  elapsed :: "string \<Rightarrow> nat"
  within_window :: "int \<Rightarrow> json \<Rightarrow> bool"

text \<open>The state when the process starts at time \<open>t0\<close>: an empty cache, \<^verbatim>\<open>lastUpdated: 0\<close>.\<close>

definition initial :: "int \<Rightarrow> world" where
  "initial t0 = \<lparr> quoteCache_data = [], quoteCache_proto = None,
                  quoteCache_lastUpdated = 0, clock = t0,
                  started = t0, console = [], sent = [], hits = (\<lambda>ip. []) \<rparr>"

definition Date_now :: "world \<Rightarrow> int" where
  "Date_now w = clock w"

definition console_log :: "part list \<Rightarrow> world \<Rightarrow> world" where
  "console_log args w = w\<lparr> console := console w @ [(Log, args)] \<rparr>"

definition console_error :: "part list \<Rightarrow> world \<Rightarrow> world" where
  "console_error args w = w\<lparr> console := console w @ [(Err, args)] \<rparr>"

text \<open>\<^verbatim>\<open>await delay(ms)\<close>: the task resumes once the time has passed.\<close>

definition delay :: "nat \<Rightarrow> world \<Rightarrow> world" where
  "delay ms w = w\<lparr> clock := clock w + int ms \<rparr>"

section \<open>The upstream client\<close>

text \<open>The request URL; an unset key interpolates as the text \<^verbatim>\<open>undefined\<close>.\<close>

definition quote_url :: "env \<Rightarrow> string \<Rightarrow> string" where
  "quote_url e symbol =
     ''https://finnhub.io/api/v1/quote?symbol='' @ symbol @ ''&token='' @
     (case FINNHUB_API_KEY e of None \<Rightarrow> ''undefined'' | Some apiKey \<Rightarrow> apiKey)"

text \<open>A number in decimal, for the message of the error.\<close>

definition digits :: string where
  "digits = ''0123456789''"

fun show_nat :: "nat \<Rightarrow> string" where
  "show_nat n = (if n < 10 then [digits ! n] else show_nat (n div 10) @ [digits ! (n mod 10)])"

declare show_nat.simps [simp del]

text \<open>
  \<^verbatim>\<open>axios.get(url)\<close> with the default options, as the call at line 51 has them. The
  promise rejects when there is no response and when the status is not 2xx. On a 2xx
  status it resolves, and \<^verbatim>\<open>response.data\<close> is the parsed body when the body is JSON
  text and the body as a string when it is not: a parse failure rejects nothing.
\<close>

definition axios_get :: "env \<Rightarrow> string \<Rightarrow> js_error + json" where
  "axios_get e url =
     (case reply e url of
        NoResponse m \<Rightarrow> Inl (Error m)
      | Response status b \<Rightarrow>
          if 200 \<le> status \<and> status < 300
          then Inr (case b of JsonText v \<Rightarrow> v | OtherText s \<Rightarrow> JStr s)
          else Inl (Error (''Request failed with status code '' @ show_nat status)))"

text \<open>
  \<^verbatim>\<open>fetchStockData(symbol)\<close>. The result is a sum so that a throw to the caller would
  be a value \<open>Inl\<close>; the \<^verbatim>\<open>catch\<close> block turns the rejection into \<^verbatim>\<open>null\<close>.
\<close>

definition fetchStockData :: "env \<Rightarrow> string \<Rightarrow> world \<Rightarrow> (js_error + json) \<times> world" where
  "fetchStockData e symbol w =
     (let url = quote_url e symbol;
          w1 = w\<lparr> sent := sent w @ [url], clock := clock w + int (elapsed e url) \<rparr>
      in case axios_get e url of
           Inr response_data \<Rightarrow> (Inr response_data, w1)
         | Inl error \<Rightarrow>
             (Inr JNull,
              console_error [Str (''Error fetching '' @ symbol @ '':''), Str (message error)] w1))"

text \<open>
  The value \<^verbatim>\<open>fetchStockData(symbol)\<close> returns under \<open>e\<close>: the body, or null when
  the request fails. It does not depend on the process state (lemma \<open>fetchStockData_fetched\<close>),
  so the theorems name the outcome of a fetch by it.
\<close>

definition fetched :: "env \<Rightarrow> string \<Rightarrow> json" where
  "fetched e symbol =
     (case axios_get e (quote_url e symbol) of Inr response_data \<Rightarrow> response_data | Inl error \<Rightarrow> JNull)"

section \<open>The bulk refresher\<close>

definition MONITORED_STOCKS :: "string list" where
  "MONITORED_STOCKS =
     [''AAPL'', ''MSFT'', ''AMZN'', ''GOOGL'', ''META'',
      ''TSLA'', ''NVDA'', ''JPM'', ''JNJ'', ''V'',
      ''WMT'', ''KO'', ''PG'', ''NFLX'', ''DIS'',
      ''PFE'', ''INTC'', ''MA'', ''UNH'', ''VZ'',
      ''AMD'', ''PYPL'', ''ADBE'', ''CRM'', ''BA'',
      ''GE'', ''SBUX'', ''MCD'', ''ABNB'', ''UBER'',
      ''COST'', ''TGT'', ''F'', ''NKE'', ''T'']"

text \<open>
  The assignment \<^verbatim>\<open>quoteCache.data[symbol] = { data, timestamp: Date.now() }\<close>. It
  creates or overwrites the object's own property, except for the name \<^verbatim>\<open>__proto__\<close>
  (when the object has no own property of that name): that assignment runs the setter
  of \<^verbatim>\<open>Object.prototype\<close>, which makes the new entry the prototype of the object and
  creates no property.
\<close>

definition cache_put :: "string \<Rightarrow> json \<Rightarrow> world \<Rightarrow> world" where
  "cache_put symbol d w =
     (let entry = \<lparr> data = d, timestamp = Date_now w \<rparr>
      in if symbol = ''__proto__'' \<and> map_of (quoteCache_data w) symbol = None
         then w\<lparr> quoteCache_proto := Some entry \<rparr>
         else w\<lparr> quoteCache_data := AList.update symbol entry (quoteCache_data w) \<rparr>)"

text \<open>
  Whether the template literal of the log line, which converts \<^verbatim>\<open>data.c\<close> to a string,
  throws.
\<close>

definition log_throws :: "json \<Rightarrow> bool" where
  "log_throws d = (case get_prop d ''c'' of None \<Rightarrow> False | Some v \<Rightarrow> to_string_throws v)"

text \<open>
  The body of the \<^verbatim>\<open>for\<close> loop of \<^verbatim>\<open>updateAllStocks\<close>: the \<^verbatim>\<open>try\<close> block with the
  fetch, the guarded write, the log line and the delay, and the \<^verbatim>\<open>catch\<close> block, which
  logs and goes on to the next symbol without the delay. The block is entered when the
  log line throws, after the write.
\<close>

definition update_symbol :: "env \<Rightarrow> string \<Rightarrow> world \<Rightarrow> world" where
  "update_symbol e symbol w =
     (case fetchStockData e symbol w of
        (Inl err, w1) \<Rightarrow>
          console_error [Str (''Failed to update '' @ symbol @ '':''), Exn err] w1
      | (Inr d, w1) \<Rightarrow>
          if truthy d
          then (let w2 = cache_put symbol d w1
                in if log_throws d
                   then console_error
                          [Str (''Failed to update '' @ symbol @ '':''),
                           Exn (Error ''Cannot convert object to primitive value'')] w2
                   else delay 1500
                          (console_log
                             [Str ''Updated '', Str symbol, Str '': $'', Val (get_prop d ''c'')] w2))
          else delay 1500 w1)"

fun update_loop :: "env \<Rightarrow> string list \<Rightarrow> world \<Rightarrow> world" where
  "update_loop e [] w = w"
| "update_loop e (symbol # rest) w = update_loop e rest (update_symbol e symbol w)"

text \<open>The two statements after the loop.\<close>

definition update_done :: "world \<Rightarrow> world" where
  "update_done w =
     (let w1 = w\<lparr> quoteCache_lastUpdated := Date_now w \<rparr>
      in console_log [Str ''Stock update completed at:'', Time (clock w1)] w1)"

definition updateAllStocks :: "env \<Rightarrow> world \<Rightarrow> world" where
  "updateAllStocks e w =
     update_done
       (update_loop e MONITORED_STOCKS
          (console_log [Str ''Updating stock data from Finnhub...''] w))"

section \<open>Requests and responses\<close>

text \<open>
  The route Express selects from the method and the path: the three handlers, any
  other request under the mount point \<^verbatim>\<open>/api/\<close>, and a request outside it.
\<close>

datatype route = GET_api_quote | GET_api_quotes | GET_api_status | Other_api | Outside_api

fun under_api :: "route \<Rightarrow> bool" where
  "under_api Outside_api = False"
| "under_api r = True"

text \<open>
  What the program reads of a request: the client address, \<^verbatim>\<open>req.headers.origin\<close> and
  \<^verbatim>\<open>req.query.symbol\<close> (\<open>None\<close> is \<^verbatim>\<open>undefined\<close>). The query value is a string; a
  repeated or bracketed parameter, which Express parses to an array or an object, is
  outside the model.
\<close>

record request =
  route :: route
  ip :: string
  headers_origin :: "string option"
  query_symbol :: "string option"

datatype hval = HStr string | HNum nat

text \<open>
  The body of an answer: none, a JSON value, a text, or one of the two pages Express
  writes itself (for a request no route matches, and for an error a handler threw).
  \<open>Unanswered\<close> stands for no answer at all: the handler's promise rejected with the
  error, and the program sends nothing.
\<close>

datatype body =
    Empty
  | Json json
  | Text string
  | Not_found_page
  | Error_page js_error
  | Unanswered js_error

record response =
  statusCode :: nat
  headers :: "(string \<times> hval) list"
  body :: body

text \<open>The response object as Express hands it to the first middleware.\<close>

definition new_response :: response where
  "new_response = \<lparr> statusCode = 200, headers = [], body = Empty \<rparr>"

definition res_status :: "nat \<Rightarrow> response \<Rightarrow> response" where
  "res_status code res = res\<lparr> statusCode := code \<rparr>"

definition res_header :: "string \<Rightarrow> hval \<Rightarrow> response \<Rightarrow> response" where
  "res_header name v res = res\<lparr> headers := AList.update name v (headers res) \<rparr>"

definition res_json :: "json \<Rightarrow> response \<Rightarrow> response" where
  "res_json v res = res\<lparr> body := Json v \<rparr>"

definition res_send :: "string \<Rightarrow> response \<Rightarrow> response" where
  "res_send text res = res\<lparr> body := Text text \<rparr>"

text \<open>\<^verbatim>\<open>res.json(v)\<close> where \<open>v\<close> may be \<^verbatim>\<open>undefined\<close>, which serialises to no body.\<close>

definition res_json_opt :: "json option \<Rightarrow> response \<Rightarrow> response" where
  "res_json_opt v res = (case v of None \<Rightarrow> res\<lparr> body := Empty \<rparr> | Some x \<Rightarrow> res_json x res)"

text \<open>A middleware either passes the response on (\<^verbatim>\<open>next()\<close>) or ends the request.\<close>

datatype flow = Next response | End response

section \<open>The CORS middleware\<close>

definition allowedOrigins :: "string list" where
  "allowedOrigins = [''https://hw-invest.web.app'', ''https://hw-invest.firebaseapp.com'']"

definition cors :: "request \<Rightarrow> response \<Rightarrow> response" where
  "cors req res =
     (let origin = headers_origin req;
          res1 = (case origin of
                    None \<Rightarrow> res
                  | Some v \<Rightarrow>
                      if v \<in> set allowedOrigins
                      then res_header ''Access-Control-Allow-Origin'' (HStr v) res
                      else res)
      in res_header ''Access-Control-Allow-Headers''
           (HStr ''Origin, X-Requested-With, Content-Type, Accept, X-API-Key'') res1)"

section \<open>The route handlers\<close>

text \<open>
  The second half of the \<^verbatim>\<open>/api/quote\<close> handler: the \<^verbatim>\<open>try\<close> block with the fetch,
  the guarded write and the two answers, and the \<^verbatim>\<open>catch\<close> block.
\<close>

definition quote_fetch :: "env \<Rightarrow> string \<Rightarrow> response \<Rightarrow> world \<Rightarrow> response \<times> world" where
  "quote_fetch e symbol res w =
     (case fetchStockData e symbol w of
        (Inl error, w1) \<Rightarrow>
          (res_json (JObj [(''error'', JStr ''Failed to fetch data'')]) (res_status 500 res),
           console_error [Str ''Proxy error:'', Exn error] w1)
      | (Inr d, w1) \<Rightarrow>
          if truthy d
          then (res_json d res, cache_put symbol d w1)
          else (res_json (JObj [(''error'', JStr ''Symbol data not available'')])
                  (res_status 404 res), w1))"

text \<open>
  What the read \<^verbatim>\<open>quoteCache.data[symbol]\<close> gives. An own property gives its entry. Of
  the names the object inherits, \<^verbatim>\<open>__proto__\<close> gives the prototype, which is an entry
  once an assignment has replaced it, and \<^verbatim>\<open>data\<close> then gives the payload of that
  entry. Everything else is \<open>Other\<close>: \<^verbatim>\<open>undefined\<close>, or a value with no property
  \<^verbatim>\<open>timestamp\<close> (the inherited number \<^verbatim>\<open>timestamp\<close>, \<^verbatim>\<open>Object.prototype\<close> and its
  methods).
\<close>

datatype slot = Entry cached_quote | Payload json | Other

definition cache_get :: "world \<Rightarrow> string \<Rightarrow> slot" where
  "cache_get w symbol =
     (case map_of (quoteCache_data w) symbol of
        Some entry \<Rightarrow> Entry entry
      | None \<Rightarrow>
          (case quoteCache_proto w of
             None \<Rightarrow> Other
           | Some p \<Rightarrow>
               if symbol = ''__proto__'' then Entry p
               else if symbol = ''data'' then Payload (data p)
               else Other))"

text \<open>
  What Express does with an error that leaves a handler: thrown by a synchronous
  handler it is answered with status 500 and the error page; a rejection of the promise
  an \<^verbatim>\<open>async\<close> handler returned is not answered by the program (what Node does with
  the unhandled rejection is outside the model).
\<close>

definition express_error :: "js_error \<Rightarrow> response \<Rightarrow> response" where
  "express_error err res = (res_status 500 res)\<lparr> body := Error_page err \<rparr>"

definition unanswered :: "js_error \<Rightarrow> response \<Rightarrow> response" where
  "unanswered err res = res\<lparr> body := Unanswered err \<rparr>"

text \<open>
  The \<^verbatim>\<open>/api/quote\<close> handler. \<^verbatim>\<open>!symbol\<close> holds for a missing parameter and for the
  empty string. The test \<^verbatim>\<open>quoteCache.data[symbol] && Date.now() - ...timestamp < 3 * 60 * 1000\<close>
  is false when the read gives \<open>Other\<close>, where the difference is not a number; on an
  inherited payload it reads that payload's own \<^verbatim>\<open>timestamp\<close> and \<^verbatim>\<open>data\<close>. The test
  stands outside the \<^verbatim>\<open>try\<close> block.
\<close>

definition api_quote :: "env \<Rightarrow> request \<Rightarrow> response \<Rightarrow> world \<Rightarrow> response \<times> world" where
  "api_quote e req res w =
     (case query_symbol req of
        None \<Rightarrow>
          (res_json (JObj [(''error'', JStr ''Symbol parameter is required'')])
             (res_status 400 res), w)
      | Some symbol \<Rightarrow>
          if symbol = []
          then (res_json (JObj [(''error'', JStr ''Symbol parameter is required'')])
                  (res_status 400 res), w)
          else (case cache_get w symbol of
                  Other \<Rightarrow> quote_fetch e symbol res w
                | Entry entry \<Rightarrow>
                    if Date_now w - timestamp entry < 3 * 60 * 1000
                    then (res_json (data entry) res, w)
                    else quote_fetch e symbol res w
                | Payload d \<Rightarrow>
                    if \<not> truthy d then quote_fetch e symbol res w
                    else (case get_prop d ''timestamp'' of
                            None \<Rightarrow> quote_fetch e symbol res w
                          | Some v \<Rightarrow>
                              if to_string_throws v
                              then (unanswered (Error ''Cannot convert object to primitive value'')
                                      res, w)
                              else if within_window e (Date_now w) v
                              then (res_json_opt (get_prop d ''data'') res, w)
                              else quote_fetch e symbol res w)))"

text \<open>
  The keys the \<^verbatim>\<open>for ... in\<close> loop visits: the object's own properties, then the
  enumerable properties of its prototype that no own property hides. Those are the two
  fields of the entry that replaced the prototype; \<^verbatim>\<open>Object.prototype\<close> has none, and
  \<^verbatim>\<open>__proto__\<close> is not enumerable.
\<close>

definition for_in_keys :: "world \<Rightarrow> string list" where
  "for_in_keys w =
     map fst (quoteCache_data w) @
     (case quoteCache_proto w of
        None \<Rightarrow> []
      | Some p \<Rightarrow> filter (\<lambda>k. map_of (quoteCache_data w) k = None) [''data'', ''timestamp''])"

text \<open>
  The assignment \<^verbatim>\<open>result.data[symbol] = v\<close> as the serialised answer shows it:
  \<^verbatim>\<open>result.data\<close> is a plain object too, so the name \<^verbatim>\<open>__proto__\<close> creates no property,
  and a property whose value is \<^verbatim>\<open>undefined\<close> is left out by \<^verbatim>\<open>JSON.stringify\<close>.
\<close>

definition result_put :: "string \<Rightarrow> json option \<Rightarrow> (string \<times> json) list \<Rightarrow> (string \<times> json) list" where
  "result_put symbol v result_data =
     (case v of
        None \<Rightarrow> result_data
      | Some x \<Rightarrow> if symbol = ''__proto__'' then result_data
                  else AList.update symbol x result_data)"

text \<open>
  The \<^verbatim>\<open>for ... in\<close> loop of the \<^verbatim>\<open>/api/quotes\<close> handler:
  \<^verbatim>\<open>result.data[symbol] = quoteCache.data[symbol].data\<close>. Reading \<^verbatim>\<open>.data\<close> of
  \<^verbatim>\<open>undefined\<close> or of null throws; for the inherited key \<^verbatim>\<open>timestamp\<close>, which reads
  \<open>Other\<close>, it gives \<^verbatim>\<open>undefined\<close>.
\<close>

fun quotes_loop ::
  "string list \<Rightarrow> world \<Rightarrow> (string \<times> json) list \<Rightarrow> js_error + (string \<times> json) list" where
  "quotes_loop [] w result_data = Inr result_data"
| "quotes_loop (symbol # rest) w result_data =
     (case cache_get w symbol of
        Entry entry \<Rightarrow> quotes_loop rest w (result_put symbol (Some (data entry)) result_data)
      | Payload d \<Rightarrow>
          if d = JNull then Inl (Error ''Cannot read properties of null'')
          else quotes_loop rest w (result_put symbol (get_prop d ''data'') result_data)
      | Other \<Rightarrow>
          if symbol = ''timestamp'' \<and> quoteCache_proto w \<noteq> None
          then quotes_loop rest w result_data
          else Inl (Error ''Cannot read properties of undefined''))"

definition api_quotes :: "request \<Rightarrow> response \<Rightarrow> world \<Rightarrow> response \<times> world" where
  "api_quotes req res w =
     (case quotes_loop (for_in_keys w) w [] of
        Inl err \<Rightarrow> (express_error err res, w)
      | Inr result_data \<Rightarrow>
          (res_json (JObj [(''lastUpdated'', JNum (of_int (quoteCache_lastUpdated w))),
                           (''data'', JObj result_data)]) res, w))"

definition api_status :: "request \<Rightarrow> response \<Rightarrow> world \<Rightarrow> response \<times> world" where
  "api_status req res w =
     (res_json (JObj [(''status'', JStr ''online''),
                      (''lastUpdated'', JNum (of_int (quoteCache_lastUpdated w))),
                      (''stocksTracked'', JNum (of_nat (length (quoteCache_data w)))),
                      (''uptime'', JNum (of_int (clock w - started w) / 1000))]) res, w)"

section \<open>The rate limiter\<close>

text \<open>The options the program passes to \<^verbatim>\<open>rateLimit\<close>.\<close>

definition windowMs :: int where
  "windowMs = 15 * 60 * 1000"

definition max_requests :: nat where
  "max_requests = 100"

definition limit_message :: string where
  "limit_message = ''Too many requests, please try again later''"

text \<open>
  Modelled from the spec: the middleware \<^verbatim>\<open>rateLimit(options)\<close> returns is code of
  the package \<^verbatim>\<open>express-rate-limit\<close>, which is not among the sources. The spec says:
  a per-client-IP sliding-window rate limit, 100 requests per 15-minute window on paths
  under \<^verbatim>\<open>/api/\<close>, responding with a fixed "too many requests" message and standard
  rate-limit response headers once exceeded; a rate-limit response does not touch the
  cache or the upstream. So the store keeps, for each address, the times of its requests
  of the last \<open>windowMs\<close> milliseconds; a request is counted, and it is rejected with
  status 429 and the message when it is more than the \<open>max_requests\<close>-th of them.
\<close>

definition recent_hits :: "world \<Rightarrow> string \<Rightarrow> int list" where
  "recent_hits w a = filter (\<lambda>h. Date_now w - h < windowMs) (hits w a)"

text \<open>
  Modelled from the spec: the middleware itself, which is missing with the package. It
  counts the request, sets the \<^verbatim>\<open>RateLimit\<close> headers (\<^verbatim>\<open>standardHeaders: true\<close>), and
  either answers 429 with the message, without calling \<^verbatim>\<open>next()\<close>, or passes the
  request on.
\<close>

definition limiter :: "request \<Rightarrow> response \<Rightarrow> world \<Rightarrow> flow \<times> world" where
  "limiter req res w =
     (let counted = recent_hits w (ip req) @ [Date_now w];
          w1 = w\<lparr> hits := (hits w)(ip req := counted) \<rparr>;
          res1 = res_header ''RateLimit-Reset''
                   (HNum (nat ((hd counted + windowMs - Date_now w + 999) div 1000)))
                   (res_header ''RateLimit-Remaining'' (HNum (max_requests - length counted))
                      (res_header ''RateLimit-Limit'' (HNum max_requests) res))
      in if max_requests < length counted
         then (End (res_send limit_message (res_status 429 res1)), w1)
         else (Next res1, w1))"

section \<open>The application\<close>

text \<open>
  The headers \<^verbatim>\<open>helmet()\<close> sets are those of the package; the middleware only adds
  headers and always calls \<^verbatim>\<open>next()\<close>, and the model takes the headers as a parameter.
\<close>

definition helmet :: "(string \<times> hval) list \<Rightarrow> response \<Rightarrow> response" where
  "helmet hs res = fold (\<lambda>(name, v). res_header name v) hs res"

text \<open>What Express answers when no route matches.\<close>

definition not_found :: "response \<Rightarrow> response" where
  "not_found res = (res_status 404 res)\<lparr> body := Not_found_page \<rparr>"

text \<open>The CORS middleware and the routes, which run once the limiter has let a request pass.\<close>

definition dispatch :: "env \<Rightarrow> request \<Rightarrow> response \<Rightarrow> world \<Rightarrow> response \<times> world" where
  "dispatch e req res w =
     (let res1 = cors req res
      in case route req of
           GET_api_quote \<Rightarrow> api_quote e req res1 w
         | GET_api_quotes \<Rightarrow> api_quotes req res1 w
         | GET_api_status \<Rightarrow> api_status req res1 w
         | Other_api \<Rightarrow> (not_found res1, w)
         | Outside_api \<Rightarrow> (not_found res1, w))"

text \<open>
  One request through the application, in the order of the \<^verbatim>\<open>app.use\<close> calls: helmet,
  the limiter on paths under \<^verbatim>\<open>/api/\<close>, the CORS middleware, the route.
\<close>

definition app :: "(string \<times> hval) list \<Rightarrow> env \<Rightarrow> request \<Rightarrow> world \<Rightarrow> response \<times> world" where
  "app hs e req w =
     (let res0 = helmet hs new_response
      in if under_api (route req)
         then (case limiter req res0 w of
                 (End res, w1) \<Rightarrow> (res, w1)
               | (Next res1, w1) \<Rightarrow> dispatch e req res1 w1)
         else dispatch e req res0 w)"

section \<open>Runs of the process\<close>

text \<open>
  The tasks of the process interleave at every \<^verbatim>\<open>await\<close>. A step is one piece that
  runs without interruption: a request through the application; the second half of the
  \<^verbatim>\<open>/api/quote\<close> handler, resumed in a state other tasks have changed since the handler
  looked at the cache; one iteration of the refresher's loop; the end of a pass; time
  passing.
\<close>

inductive step :: "world \<Rightarrow> world \<Rightarrow> bool" where
  request: "step w (snd (app hs e req w))"
| resume: "symbol \<noteq> [] \<Longrightarrow> step w (snd (quote_fetch e symbol res w))"
| refresh: "symbol \<in> set MONITORED_STOCKS \<Longrightarrow> step w (update_symbol e symbol w)"
| refresh_log: "step w (console_log [Str ''Updating stock data from Finnhub...''] w)"
| refresh_done: "step w (update_done w)"
| elapse: "step w (delay ms w)"

inductive reachable :: "world \<Rightarrow> bool" where
  start: "reachable (initial t0)"
| after: "reachable w \<Longrightarrow> step w w' \<Longrightarrow> reachable w'"

text \<open>
  A run of requests answered one after the other; each arrives \<open>gap\<close> milliseconds
  after the one before it was answered.
\<close>

fun serve ::
  "(string \<times> hval) list \<Rightarrow> (nat \<times> env \<times> request) list \<Rightarrow> world \<Rightarrow> response list \<times> world" where
  "serve hs [] w = ([], w)"
| "serve hs ((gap, e, req) # rest) w =
     (case app hs e req (delay gap w) of
        (r, w1) \<Rightarrow> (case serve hs rest w1 of (rs, w2) \<Rightarrow> (r # rs, w2)))"

section \<open>Example environments and states\<close>

definition quote_body :: json where
  "quote_body = JObj [(''c'', JNum (601 / 4)), (''pc'', JNum 149)]"

text \<open>Every request is answered with a quote after 120 ms.\<close>

text \<open>The arithmetic of the language on the values that are numbers.\<close>

definition number_within_window :: "int \<Rightarrow> json \<Rightarrow> bool" where
  "number_within_window now v =
     (case v of JNum n \<Rightarrow> of_int now - n < 3 * 60 * 1000 | _ \<Rightarrow> False)"

definition up_ok :: env where
  "up_ok = \<lparr> FINNHUB_API_KEY = Some ''key'',
             reply = (\<lambda>url. Response 200 (JsonText quote_body)), elapsed = (\<lambda>url. 120),
             within_window = number_within_window \<rparr>"

text \<open>Every request fails.\<close>

definition up_down :: env where
  "up_down = \<lparr> FINNHUB_API_KEY = Some ''key'',
               reply = (\<lambda>url. NoResponse ''timeout of 0ms exceeded''),
               elapsed = (\<lambda>url. 120), within_window = number_within_window \<rparr>"

text \<open>The request for AAPL fails, every other one is answered.\<close>

definition up_aapl_down :: env where
  "up_aapl_down = \<lparr> FINNHUB_API_KEY = Some ''key'',
       reply = (\<lambda>url. if url = ''https://finnhub.io/api/v1/quote?symbol=AAPL&token=key''
                        then Response 429 (OtherText ''Too Many Requests'')
                        else Response 200 (JsonText quote_body)),
       elapsed = (\<lambda>url. 120), within_window = number_within_window \<rparr>"

text \<open>Every request is answered with status 200 and an empty body.\<close>

definition up_empty :: env where
  "up_empty = \<lparr> FINNHUB_API_KEY = Some ''key'',
                reply = (\<lambda>url. Response 200 (OtherText [])), elapsed = (\<lambda>url. 120),
                within_window = number_within_window \<rparr>"

text \<open>Every request is answered with status 200 and a body that is not JSON.\<close>

definition up_badjson :: env where
  "up_badjson = \<lparr> FINNHUB_API_KEY = Some ''key'',
                  reply = (\<lambda>url. Response 200 (OtherText ''{bad json'')),
                  elapsed = (\<lambda>url. 120), within_window = number_within_window \<rparr>"

text \<open>Every request is answered with a payload that has a field \<^verbatim>\<open>data\<close>.\<close>

definition up_data :: env where
  "up_data = \<lparr> FINNHUB_API_KEY = Some ''key'',
               reply = (\<lambda>url. Response 200 (JsonText (JObj [(''data'', JNum 5)]))),
               elapsed = (\<lambda>url. 120), within_window = number_within_window \<rparr>"

text \<open>A state whose cache holds one entry, for AAPL, written at time 1000.\<close>

definition w_aapl :: world where
  "w_aapl = (initial 0)\<lparr> quoteCache_data := [(''AAPL'', \<lparr> data = quote_body, timestamp = 1000 \<rparr>)],
                           clock := 2000 \<rparr>"

definition req_quote :: "string option \<Rightarrow> request" where
  "req_quote symbol = \<lparr> route = GET_api_quote, ip = ''203.0.113.7'',
                         headers_origin = Some ''https://hw-invest.web.app'',
                         query_symbol = symbol \<rparr>"

text \<open>
  The process started at time 0 and, one second later, answered a first request for
  AAPL from the upstream.
\<close>

definition w_served :: world where
  "w_served = snd (app [] up_ok (req_quote (Some ''AAPL'')) (delay 1000 (initial 0)))"

text \<open>The same with a first request for the symbol \<^verbatim>\<open>__proto__\<close>.\<close>

definition w_proto :: "env \<Rightarrow> world" where
  "w_proto e = snd (app [] e (req_quote (Some ''__proto__'')) (delay 1000 (initial 0)))"

section \<open>The upstream client and the refresher's loop, step by step\<close>

lemma fetchStockData_fetched:
  "fst (fetchStockData e symbol w) = Inr (fetched e symbol)"
  by (cases "axios_get e (quote_url e symbol)")
     (simp_all add: fetchStockData_def fetched_def Let_def)

lemma fetchStockData_world:
  "quoteCache_data (snd (fetchStockData e symbol w)) = quoteCache_data w"
  "quoteCache_lastUpdated (snd (fetchStockData e symbol w)) = quoteCache_lastUpdated w"
  "clock (snd (fetchStockData e symbol w)) = clock w + int (elapsed e (quote_url e symbol))"
  "sent (snd (fetchStockData e symbol w)) = sent w @ [quote_url e symbol]"
  "hits (snd (fetchStockData e symbol w)) = hits w"
  "started (snd (fetchStockData e symbol w)) = started w"
  "quoteCache_proto (snd (fetchStockData e symbol w)) = quoteCache_proto w"
  by (cases "axios_get e (quote_url e symbol)";
      simp add: fetchStockData_def Let_def console_error_def)+

lemma fetchStockData_eq:
  "fetchStockData e symbol w = (Inr (fetched e symbol), snd (fetchStockData e symbol w))"
  using fetchStockData_fetched [of e symbol w] by (cases "fetchStockData e symbol w") simp

lemma cache_put_world:
  "quoteCache_data (cache_put symbol d w) =
     (if symbol = ''__proto__'' \<and> map_of (quoteCache_data w) symbol = None
      then quoteCache_data w
      else AList.update symbol \<lparr> data = d, timestamp = clock w \<rparr> (quoteCache_data w))"
  "quoteCache_proto (cache_put symbol d w) =
     (if symbol = ''__proto__'' \<and> map_of (quoteCache_data w) symbol = None
      then Some \<lparr> data = d, timestamp = clock w \<rparr>
      else quoteCache_proto w)"
  "quoteCache_lastUpdated (cache_put symbol d w) = quoteCache_lastUpdated w"
  "clock (cache_put symbol d w) = clock w"
  "sent (cache_put symbol d w) = sent w"
  "hits (cache_put symbol d w) = hits w"
  by (auto simp add: cache_put_def Let_def Date_now_def)

lemma update_symbol_eq:
  "update_symbol e symbol w =
     (if truthy (fetched e symbol)
      then if log_throws (fetched e symbol)
           then console_error
                  [Str (''Failed to update '' @ symbol @ '':''),
                   Exn (Error ''Cannot convert object to primitive value'')]
                  (cache_put symbol (fetched e symbol) (snd (fetchStockData e symbol w)))
           else delay 1500
                  (console_log
                     [Str ''Updated '', Str symbol, Str '': $'',
                      Val (get_prop (fetched e symbol) ''c'')]
                     (cache_put symbol (fetched e symbol) (snd (fetchStockData e symbol w))))
      else delay 1500 (snd (fetchStockData e symbol w)))"
  unfolding update_symbol_def by (subst fetchStockData_eq) (simp add: Let_def)

lemma update_symbol_world:
  "quoteCache_data (update_symbol e symbol w) =
     (if truthy (fetched e symbol) \<and>
         \<not> (symbol = ''__proto__'' \<and> map_of (quoteCache_data w) symbol = None)
      then AList.update symbol
             \<lparr> data = fetched e symbol,
               timestamp = clock w + int (elapsed e (quote_url e symbol)) \<rparr> (quoteCache_data w)
      else quoteCache_data w)"
  "quoteCache_lastUpdated (update_symbol e symbol w) = quoteCache_lastUpdated w"
  "clock (update_symbol e symbol w) =
     clock w + int (elapsed e (quote_url e symbol)) +
     (if truthy (fetched e symbol) \<and> log_throws (fetched e symbol) then 0 else 1500)"
  "sent (update_symbol e symbol w) = sent w @ [quote_url e symbol]"
  "hits (update_symbol e symbol w) = hits w"
  by (auto simp add: update_symbol_eq fetchStockData_world cache_put_world delay_def
        console_log_def console_error_def)

lemma update_loop_sent:
  "sent (update_loop e symbols w) = sent w @ map (quote_url e) symbols"
  by (induction symbols arbitrary: w) (simp_all add: update_symbol_world)

lemma update_loop_clock: "clock w \<le> clock (update_loop e symbols w)"
proof (induction symbols arbitrary: w)
  case Nil
  show ?case by simp
next
  case (Cons symbol rest)
  have "clock w \<le> clock (update_symbol e symbol w)"
    by (simp add: update_symbol_world)
  also have "\<dots> \<le> clock (update_loop e rest (update_symbol e symbol w))"
    by (rule Cons.IH)
  finally show ?case by simp
qed

lemma update_loop_lastUpdated:
  "quoteCache_lastUpdated (update_loop e symbols w) = quoteCache_lastUpdated w"
  by (induction symbols arbitrary: w) (simp_all add: update_symbol_world)

lemma update_loop_skips:
  "symbol \<notin> set symbols \<or> \<not> truthy (fetched e symbol) \<Longrightarrow>
   map_of (quoteCache_data (update_loop e symbols w)) symbol = map_of (quoteCache_data w) symbol"
  by (induction symbols arbitrary: w) (auto simp add: update_symbol_world update_conv')

lemma update_loop_writes:
  "symbol \<in> set symbols \<Longrightarrow> truthy (fetched e symbol) \<Longrightarrow> symbol \<noteq> ''__proto__'' \<Longrightarrow>
   \<exists>t. map_of (quoteCache_data (update_loop e symbols w)) symbol =
          Some \<lparr> data = fetched e symbol, timestamp = t \<rparr> \<and>
       clock w \<le> t \<and> t \<le> clock (update_loop e symbols w)"
proof (induction symbols arbitrary: w)
  case Nil
  then show ?case by simp
next
  case (Cons x rest)
  let ?w1 = "update_symbol e x w"
  have mono: "clock w \<le> clock ?w1" by (simp add: update_symbol_world)
  show ?case
  proof (cases "symbol \<in> set rest")
    case True
    from Cons.IH [OF True Cons.prems(2,3), of ?w1] mono show ?thesis
      by auto
  next
    case False
    with Cons.prems have x: "x = symbol" by simp
    let ?t = "clock w + int (elapsed e (quote_url e symbol))"
    have "map_of (quoteCache_data (update_loop e rest ?w1)) symbol =
          map_of (quoteCache_data ?w1) symbol"
      using False by (simp add: update_loop_skips)
    also have "\<dots> = Some \<lparr> data = fetched e symbol, timestamp = ?t \<rparr>"
      using Cons.prems(2,3) by (simp add: x update_symbol_world update_conv')
    finally have entry: "map_of (quoteCache_data (update_loop e (x # rest) w)) symbol =
        Some \<lparr> data = fetched e symbol, timestamp = ?t \<rparr>" by simp
    have "?t \<le> clock ?w1" by (simp add: x update_symbol_world)
    also have "\<dots> \<le> clock (update_loop e rest ?w1)" by (rule update_loop_clock)
    finally have "?t \<le> clock (update_loop e (x # rest) w)" by simp
    with entry show ?thesis by auto
  qed
qed

lemma updateAllStocks_world:
  "quoteCache_data (updateAllStocks e w) =
     quoteCache_data (update_loop e MONITORED_STOCKS
       (console_log [Str ''Updating stock data from Finnhub...''] w))"
  "quoteCache_lastUpdated (updateAllStocks e w) = clock (updateAllStocks e w)"
  "clock (updateAllStocks e w) =
     clock (update_loop e MONITORED_STOCKS
       (console_log [Str ''Updating stock data from Finnhub...''] w))"
  "sent (updateAllStocks e w) =
     sent (update_loop e MONITORED_STOCKS
       (console_log [Str ''Updating stock data from Finnhub...''] w))"
  by (simp_all add: updateAllStocks_def update_done_def console_log_def Let_def Date_now_def)

lemma console_log_world:
  "quoteCache_data (console_log args w) = quoteCache_data w"
  "quoteCache_lastUpdated (console_log args w) = quoteCache_lastUpdated w"
  "clock (console_log args w) = clock w"
  "sent (console_log args w) = sent w"
  "hits (console_log args w) = hits w"
  by (simp_all add: console_log_def)

lemma MONITORED_STOCKS_names:
  "symbol \<in> set MONITORED_STOCKS \<Longrightarrow> symbol \<noteq> [] \<and> symbol \<noteq> ''__proto__''"
  by (auto simp add: MONITORED_STOCKS_def)

lemma axios_get_examples:
  "axios_get up_ok url = Inr quote_body"
  "axios_get up_down url = Inl (Error ''timeout of 0ms exceeded'')"
  "axios_get up_empty url = Inr (JStr [])"
  "axios_get up_badjson url = Inr (JStr ''{bad json'')"
  "axios_get up_data url = Inr (JObj [(''data'', JNum 5)])"
  by (simp_all add: axios_get_def up_ok_def up_down_def up_empty_def up_badjson_def up_data_def)

lemma fetched_examples:
  "fetched up_ok symbol = quote_body"
  "fetched up_down symbol = JNull"
  "fetched up_empty symbol = JStr []"
  "fetched up_data symbol = JObj [(''data'', JNum 5)]"
  "fetched up_aapl_down ''AAPL'' = JNull"
  "fetched up_aapl_down ''MSFT'' = quote_body"
  by (simp_all add: fetched_def axios_get_examples)
     (simp_all add: axios_get_def up_aapl_down_def quote_url_def)

section \<open>The upstream client never throws\<close>

text \<open>
  C3, as stated, fails for a parse failure: the upstream answers with status 200 and
  the body \<^verbatim>\<open>{bad json\<close>, which is no JSON. The promise of \<^verbatim>\<open>axios.get\<close> resolves with
  the body as a string, and \<^verbatim>\<open>fetchStockData\<close> returns that string, not null, and logs
  nothing.
\<close>

theorem fetchStockData_bad_json_counterexample:
  "reply up_badjson (quote_url up_badjson ''AAPL'') = Response 200 (OtherText ''{bad json'') \<and>
   fst (fetchStockData up_badjson ''AAPL'' (initial 0)) = Inr (JStr ''{bad json'') \<and>
   console (snd (fetchStockData up_badjson ''AAPL'' (initial 0))) = []"
proof -
  have "reply up_badjson (quote_url up_badjson ''AAPL'') = Response 200 (OtherText ''{bad json'')"
    by (simp add: up_badjson_def)
  moreover have "fst (fetchStockData up_badjson ''AAPL'' (initial 0)) = Inr (JStr ''{bad json'')"
    by (simp add: fetchStockData_def Let_def axios_get_examples)
  moreover have "console (snd (fetchStockData up_badjson ''AAPL'' (initial 0))) = []"
    by (simp add: fetchStockData_def Let_def axios_get_examples initial_def)
  ultimately show ?thesis by simp
qed

text \<open>
  C3, amended. \<^verbatim>\<open>fetchStockData(symbol)\<close> never throws to its caller. On a transport
  error and on a status that is not 2xx it appends one \<^verbatim>\<open>console.error\<close> line holding
  the symbol and the error's message and returns null. On a 2xx status it logs nothing
  and returns the response body: the parsed value when the body is JSON, unmodified, and
  the body as a string when it does not parse, which is no failure.
\<close>

theorem fetchStockData_never_throws:
  "(\<exists>v. fst (fetchStockData e symbol w) = Inr v) \<and>
   (\<forall>m. reply e (quote_url e symbol) = NoResponse m \<longrightarrow>
      fst (fetchStockData e symbol w) = Inr JNull \<and>
      console (snd (fetchStockData e symbol w)) =
        console w @ [(Err, [Str (''Error fetching '' @ symbol @ '':''), Str m])]) \<and>
   (\<forall>status b. reply e (quote_url e symbol) = Response status b \<and>
        \<not> (200 \<le> status \<and> status < 300) \<longrightarrow>
      fst (fetchStockData e symbol w) = Inr JNull \<and>
      console (snd (fetchStockData e symbol w)) =
        console w @ [(Err, [Str (''Error fetching '' @ symbol @ '':''),
                            Str (''Request failed with status code '' @ show_nat status)])]) \<and>
   (\<forall>status v. reply e (quote_url e symbol) = Response status (JsonText v) \<and>
        200 \<le> status \<and> status < 300 \<longrightarrow>
      fst (fetchStockData e symbol w) = Inr v \<and>
      console (snd (fetchStockData e symbol w)) = console w) \<and>
   (\<forall>status s. reply e (quote_url e symbol) = Response status (OtherText s) \<and>
        200 \<le> status \<and> status < 300 \<longrightarrow>
      fst (fetchStockData e symbol w) = Inr (JStr s) \<and>
      console (snd (fetchStockData e symbol w)) = console w)"
proof (intro conjI allI impI)
  show "\<exists>v. fst (fetchStockData e symbol w) = Inr v"
    by (simp add: fetchStockData_fetched)
qed (auto simp add: fetchStockData_def Let_def axios_get_def console_error_def)

theorem fetchStockData_never_throws_witness:
  "reply up_down (quote_url up_down ''AAPL'') = NoResponse ''timeout of 0ms exceeded'' \<and>
   fst (fetchStockData up_down ''AAPL'' (initial 0)) = Inr JNull \<and>
   console (snd (fetchStockData up_down ''AAPL'' (initial 0))) =
     [(Err, [Str ''Error fetching AAPL:'', Str ''timeout of 0ms exceeded''])] \<and>
   reply up_aapl_down (quote_url up_aapl_down ''AAPL'') =
     Response 429 (OtherText ''Too Many Requests'') \<and>
   fst (fetchStockData up_aapl_down ''AAPL'' (initial 0)) = Inr JNull \<and>
   console (snd (fetchStockData up_aapl_down ''AAPL'' (initial 0))) =
     [(Err, [Str ''Error fetching AAPL:'', Str ''Request failed with status code 429''])] \<and>
   reply up_ok (quote_url up_ok ''AAPL'') = Response 200 (JsonText quote_body) \<and>
   fst (fetchStockData up_ok ''AAPL'' (initial 0)) = Inr quote_body \<and>
   console (snd (fetchStockData up_ok ''AAPL'' (initial 0))) = [] \<and>
   reply up_badjson (quote_url up_badjson ''AAPL'') = Response 200 (OtherText ''{bad json'') \<and>
   fst (fetchStockData up_badjson ''AAPL'' (initial 0)) = Inr (JStr ''{bad json'') \<and>
   console (snd (fetchStockData up_badjson ''AAPL'' (initial 0))) = []"
proof -
  have r: "reply up_down (quote_url up_down ''AAPL'') = NoResponse ''timeout of 0ms exceeded''"
    "reply up_aapl_down (quote_url up_aapl_down ''AAPL'') =
       Response 429 (OtherText ''Too Many Requests'')"
    "reply up_ok (quote_url up_ok ''AAPL'') = Response 200 (JsonText quote_body)"
    "reply up_badjson (quote_url up_badjson ''AAPL'') = Response 200 (OtherText ''{bad json'')"
    by (simp_all add: up_down_def up_aapl_down_def up_ok_def up_badjson_def quote_url_def)
  have n: "show_nat 429 = ''429''"
    by (simp add: show_nat.simps digits_def)
  have c: "console (initial 0) = []"
    by (simp add: initial_def)
  from fetchStockData_never_throws [of up_down "''AAPL''" "initial 0"]
    fetchStockData_never_throws [of up_aapl_down "''AAPL''" "initial 0"]
    fetchStockData_never_throws [of up_ok "''AAPL''" "initial 0"]
    fetchStockData_never_throws [of up_badjson "''AAPL''" "initial 0"]
  show ?thesis
    by (simp add: r n c)
qed

section \<open>One pass of the refresher\<close>

text \<open>
  C1. In a pass of \<^verbatim>\<open>updateAllStocks\<close> a failed fetch stops nothing: whatever the
  upstream answers, the pass requests every symbol of \<open>MONITORED_STOCKS\<close>, one request
  each, in the order of the list; and for every symbol whose fetch returned null the
  cache holds after the pass what it held before, the same entry or none.
\<close>

theorem updateAllStocks_isolates_failures:
  "sent (updateAllStocks e w) = sent w @ map (quote_url e) MONITORED_STOCKS \<and>
   (\<forall>symbol. fetched e symbol = JNull \<longrightarrow>
      map_of (quoteCache_data (updateAllStocks e w)) symbol = map_of (quoteCache_data w) symbol)"
  by (simp add: updateAllStocks_world update_loop_sent update_loop_skips console_log_world)

theorem updateAllStocks_isolates_failures_witness:
  "fetched up_aapl_down ''AAPL'' = JNull \<and>
   sent (updateAllStocks up_aapl_down w_aapl) = map (quote_url up_aapl_down) MONITORED_STOCKS \<and>
   map_of (quoteCache_data (updateAllStocks up_aapl_down w_aapl)) ''AAPL'' =
     Some \<lparr> data = quote_body, timestamp = 1000 \<rparr>"
  using updateAllStocks_isolates_failures [of up_aapl_down w_aapl]
  by (simp add: fetched_examples w_aapl_def initial_def)

text \<open>
  C4, as stated, fails where a fetch succeeds with a falsy body: the request for AAPL is
  answered with status 200 and an empty body, \<^verbatim>\<open>fetchStockData\<close> returns the empty
  string and not null, and the guard \<^verbatim>\<open>if (data)\<close> skips the write, so the pass leaves
  no entry for AAPL.
\<close>

theorem updateAllStocks_empty_body_counterexample:
  "''AAPL'' \<in> set MONITORED_STOCKS \<and>
   axios_get up_empty (quote_url up_empty ''AAPL'') = Inr (JStr []) \<and>
   fst (fetchStockData up_empty ''AAPL'' (initial 0)) = Inr (JStr []) \<and>
   map_of (quoteCache_data (updateAllStocks up_empty (initial 0))) ''AAPL'' = None"
proof -
  have "map_of (quoteCache_data (updateAllStocks up_empty (initial 0))) ''AAPL'' =
        map_of (quoteCache_data (initial 0)) ''AAPL''"
    by (simp add: updateAllStocks_world update_loop_skips console_log_world fetched_examples)
  moreover have "map_of (quoteCache_data (initial 0)) ''AAPL'' = None"
    by (simp add: initial_def)
  moreover have "axios_get up_empty (quote_url up_empty ''AAPL'') = Inr (JStr [])"
    by (simp add: axios_get_examples)
  moreover have "''AAPL'' \<in> set MONITORED_STOCKS"
    by (simp add: MONITORED_STOCKS_def)
  ultimately show ?thesis
    by (simp add: fetchStockData_fetched fetched_examples)
qed

text \<open>
  C4, amended. After a pass of \<^verbatim>\<open>updateAllStocks\<close>, the cache holds an entry written
  by that pass (the fetched payload, with a timestamp taken during the pass) for exactly
  the monitored symbols whose fetch returned a truthy payload; for every other symbol,
  one whose fetch returned null or a falsy body and one that is not monitored, it holds
  what it held before. The loop does not change \<^verbatim>\<open>lastUpdated\<close>; the pass sets it once,
  at its end, whatever the fetches returned, to the time of that moment, which is at or
  after the timestamp of every entry the pass wrote.
\<close>

theorem updateAllStocks_pass:
  "quoteCache_lastUpdated (updateAllStocks e w) = clock (updateAllStocks e w) \<and>
   clock w \<le> quoteCache_lastUpdated (updateAllStocks e w) \<and>
   quoteCache_lastUpdated
     (update_loop e MONITORED_STOCKS (console_log [Str ''Updating stock data from Finnhub...''] w)) =
     quoteCache_lastUpdated w \<and>
   (\<forall>symbol. symbol \<in> set MONITORED_STOCKS \<and> truthy (fetched e symbol) \<longrightarrow>
      (\<exists>t. map_of (quoteCache_data (updateAllStocks e w)) symbol =
              Some \<lparr> data = fetched e symbol, timestamp = t \<rparr> \<and>
           clock w \<le> t \<and> t \<le> quoteCache_lastUpdated (updateAllStocks e w))) \<and>
   (\<forall>symbol. symbol \<notin> set MONITORED_STOCKS \<or> \<not> truthy (fetched e symbol) \<longrightarrow>
      map_of (quoteCache_data (updateAllStocks e w)) symbol = map_of (quoteCache_data w) symbol)"
proof -
  let ?w0 = "console_log [Str ''Updating stock data from Finnhub...''] w"
  have a: "quoteCache_lastUpdated (updateAllStocks e w) = clock (updateAllStocks e w)"
    by (simp add: updateAllStocks_world)
  have b: "clock w \<le> quoteCache_lastUpdated (updateAllStocks e w)"
    using update_loop_clock [of ?w0 e MONITORED_STOCKS]
    by (simp add: updateAllStocks_world console_log_world)
  have c: "quoteCache_lastUpdated (update_loop e MONITORED_STOCKS ?w0) = quoteCache_lastUpdated w"
    by (simp add: update_loop_lastUpdated console_log_world)
  have d: "\<exists>t. map_of (quoteCache_data (updateAllStocks e w)) symbol =
              Some \<lparr> data = fetched e symbol, timestamp = t \<rparr> \<and>
           clock w \<le> t \<and> t \<le> quoteCache_lastUpdated (updateAllStocks e w)"
    if "symbol \<in> set MONITORED_STOCKS" "truthy (fetched e symbol)" for symbol
    using update_loop_writes [OF that, of ?w0] MONITORED_STOCKS_names [OF that(1)]
    by (simp add: updateAllStocks_world console_log_world)
  have f: "map_of (quoteCache_data (updateAllStocks e w)) symbol = map_of (quoteCache_data w) symbol"
    if "symbol \<notin> set MONITORED_STOCKS \<or> \<not> truthy (fetched e symbol)" for symbol
    using that by (simp add: updateAllStocks_world update_loop_skips console_log_world)
  from a b c d f show ?thesis by blast
qed

theorem updateAllStocks_pass_witness:
  "''MSFT'' \<in> set MONITORED_STOCKS \<and> truthy (fetched up_aapl_down ''MSFT'') \<and>
   (\<exists>t. map_of (quoteCache_data (updateAllStocks up_aapl_down w_aapl)) ''MSFT'' =
           Some \<lparr> data = quote_body, timestamp = t \<rparr> \<and>
        2000 \<le> t \<and> t \<le> quoteCache_lastUpdated (updateAllStocks up_aapl_down w_aapl)) \<and>
   \<not> truthy (fetched up_aapl_down ''AAPL'') \<and>
   map_of (quoteCache_data (updateAllStocks up_aapl_down w_aapl)) ''AAPL'' =
     Some \<lparr> data = quote_body, timestamp = 1000 \<rparr>"
proof -
  have h: "''MSFT'' \<in> set MONITORED_STOCKS \<and> truthy (fetched up_aapl_down ''MSFT'')"
    by (simp add: MONITORED_STOCKS_def fetched_examples quote_body_def)
  have g: "\<not> truthy (fetched up_aapl_down ''AAPL'')"
    by (simp add: fetched_examples)
  have w: "clock w_aapl = 2000"
    "map_of (quoteCache_data w_aapl) ''AAPL'' = Some \<lparr> data = quote_body, timestamp = 1000 \<rparr>"
    by (simp_all add: w_aapl_def initial_def)
  have p: "\<forall>symbol. symbol \<in> set MONITORED_STOCKS \<and> truthy (fetched up_aapl_down symbol) \<longrightarrow>
      (\<exists>t. map_of (quoteCache_data (updateAllStocks up_aapl_down w_aapl)) symbol =
              Some \<lparr> data = fetched up_aapl_down symbol, timestamp = t \<rparr> \<and>
           clock w_aapl \<le> t \<and> t \<le> quoteCache_lastUpdated (updateAllStocks up_aapl_down w_aapl))"
    and q: "\<forall>symbol. symbol \<notin> set MONITORED_STOCKS \<or> \<not> truthy (fetched up_aapl_down symbol) \<longrightarrow>
      map_of (quoteCache_data (updateAllStocks up_aapl_down w_aapl)) symbol =
      map_of (quoteCache_data w_aapl) symbol"
    using updateAllStocks_pass [of up_aapl_down w_aapl] by blast+
  from p [rule_format, of "''MSFT''"] h q [rule_format, of "''AAPL''"] g w show ?thesis
    by (simp add: fetched_examples)
qed

section \<open>What one step does to the cache\<close>

lemma quote_fetch_eq:
  "quote_fetch e symbol res w =
     (if truthy (fetched e symbol)
      then (res_json (fetched e symbol) res,
            cache_put symbol (fetched e symbol) (snd (fetchStockData e symbol w)))
      else (res_json (JObj [(''error'', JStr ''Symbol data not available'')]) (res_status 404 res),
            snd (fetchStockData e symbol w)))"
  unfolding quote_fetch_def by (subst fetchStockData_eq) simp

lemma quote_fetch_world:
  "quoteCache_data (snd (quote_fetch e symbol res w)) =
     (if truthy (fetched e symbol) \<and>
         \<not> (symbol = ''__proto__'' \<and> map_of (quoteCache_data w) symbol = None)
      then AList.update symbol
             \<lparr> data = fetched e symbol,
               timestamp = clock w + int (elapsed e (quote_url e symbol)) \<rparr> (quoteCache_data w)
      else quoteCache_data w)"
  "quoteCache_lastUpdated (snd (quote_fetch e symbol res w)) = quoteCache_lastUpdated w"
  "clock (snd (quote_fetch e symbol res w)) = clock w + int (elapsed e (quote_url e symbol))"
  "sent (snd (quote_fetch e symbol res w)) = sent w @ [quote_url e symbol]"
  "hits (snd (quote_fetch e symbol res w)) = hits w"
  by (auto simp add: quote_fetch_eq fetchStockData_world cache_put_world)

lemma api_quote_cases:
  "(\<exists>r. api_quote e req res w = (r, w)) \<or>
   (\<exists>symbol. symbol \<noteq> [] \<and> api_quote e req res w = quote_fetch e symbol res w)"
proof (cases "query_symbol req")
  case None
  then show ?thesis by (simp add: api_quote_def)
next
  case (Some symbol)
  show ?thesis
  proof (cases "symbol = []")
    case True
    with Some show ?thesis by (simp add: api_quote_def)
  next
    case False
    have "api_quote e req res w = quote_fetch e symbol res w \<or>
          (\<exists>r. api_quote e req res w = (r, w))"
      using Some False
      by (simp add: api_quote_def split: slot.split option.split)
    with False show ?thesis by blast
  qed
qed

lemma api_quotes_world: "snd (api_quotes req res w) = w"
  by (simp add: api_quotes_def split: sum.split)

lemma limiter_world:
  "quoteCache_data (snd (limiter req res w)) = quoteCache_data w"
  "quoteCache_lastUpdated (snd (limiter req res w)) = quoteCache_lastUpdated w"
  "clock (snd (limiter req res w)) = clock w"
  "sent (snd (limiter req res w)) = sent w"
  "hits (snd (limiter req res w)) = (hits w)(ip req := recent_hits w (ip req) @ [Date_now w])"
  by (simp_all add: limiter_def Let_def)

text \<open>What a step does to the cache: nothing, or one assignment to a non-empty key.\<close>

lemma quote_fetch_cache:
  assumes "symbol \<noteq> []"
  shows "quoteCache_data (snd (quote_fetch e symbol res w)) = quoteCache_data w \<or>
   (\<exists>key entry. key \<noteq> [] \<and>
      quoteCache_data (snd (quote_fetch e symbol res w)) = AList.update key entry (quoteCache_data w))"
proof (cases "truthy (fetched e symbol) \<and>
    \<not> (symbol = ''__proto__'' \<and> map_of (quoteCache_data w) symbol = None)")
  case True
  then have "quoteCache_data (snd (quote_fetch e symbol res w)) =
      AList.update symbol
        \<lparr> data = fetched e symbol, timestamp = clock w + int (elapsed e (quote_url e symbol)) \<rparr>
        (quoteCache_data w)"
    by (auto simp add: quote_fetch_world)
  with assms show ?thesis by blast
next
  case False
  then have "quoteCache_data (snd (quote_fetch e symbol res w)) = quoteCache_data w"
    by (auto simp add: quote_fetch_world)
  then show ?thesis by simp
qed

lemma update_symbol_cache:
  assumes "symbol \<noteq> []"
  shows "quoteCache_data (update_symbol e symbol w) = quoteCache_data w \<or>
   (\<exists>key entry. key \<noteq> [] \<and>
      quoteCache_data (update_symbol e symbol w) = AList.update key entry (quoteCache_data w))"
proof (cases "truthy (fetched e symbol) \<and>
    \<not> (symbol = ''__proto__'' \<and> map_of (quoteCache_data w) symbol = None)")
  case True
  then have "quoteCache_data (update_symbol e symbol w) =
      AList.update symbol
        \<lparr> data = fetched e symbol, timestamp = clock w + int (elapsed e (quote_url e symbol)) \<rparr>
        (quoteCache_data w)"
    by (auto simp add: update_symbol_world)
  with assms show ?thesis by blast
next
  case False
  then have "quoteCache_data (update_symbol e symbol w) = quoteCache_data w"
    by (auto simp add: update_symbol_world)
  then show ?thesis by simp
qed

lemma api_quote_cache:
  "quoteCache_data (snd (api_quote e req res w)) = quoteCache_data w \<or>
   (\<exists>key entry. key \<noteq> [] \<and>
      quoteCache_data (snd (api_quote e req res w)) = AList.update key entry (quoteCache_data w))"
proof -
  consider
    (same) r where "api_quote e req res w = (r, w)"
  | (miss) symbol where "symbol \<noteq> []" "api_quote e req res w = quote_fetch e symbol res w"
    using api_quote_cases [of e req res w] by blast
  then show ?thesis
  proof cases
    case same
    then show ?thesis by simp
  next
    case miss
    with quote_fetch_cache [of symbol e res w] show ?thesis by simp
  qed
qed

lemma dispatch_cache:
  "quoteCache_data (snd (dispatch e req res w)) = quoteCache_data w \<or>
   (\<exists>key entry. key \<noteq> [] \<and>
      quoteCache_data (snd (dispatch e req res w)) = AList.update key entry (quoteCache_data w))"
proof (cases "route req")
  case GET_api_quote
  then have d: "dispatch e req res w = api_quote e req (cors req res) w"
    by (simp add: dispatch_def)
  show ?thesis unfolding d by (rule api_quote_cache)
qed (simp_all add: dispatch_def api_quotes_world api_status_def)

lemma app_cache:
  "quoteCache_data (snd (app hs e req w)) = quoteCache_data w \<or>
   (\<exists>symbol entry. symbol \<noteq> [] \<and>
      quoteCache_data (snd (app hs e req w)) = AList.update symbol entry (quoteCache_data w))"
proof (cases "under_api (route req)")
  case False
  then show ?thesis using dispatch_cache [of e req "helmet hs new_response" w]
    by (simp add: app_def)
next
  case True
  obtain f w1 where l: "limiter req (helmet hs new_response) w = (f, w1)"
    by (cases "limiter req (helmet hs new_response) w")
  have c: "quoteCache_data w1 = quoteCache_data w"
    using limiter_world(1) [of req "helmet hs new_response" w] l by simp
  show ?thesis
  proof (cases f)
    case (End r)
    with True l c show ?thesis by (simp add: app_def)
  next
    case (Next r)
    with True l have "app hs e req w = dispatch e req r w1" by (simp add: app_def)
    with dispatch_cache [of e req r w1] c show ?thesis by simp
  qed
qed

lemma MONITORED_STOCKS_nonempty: "symbol \<in> set MONITORED_STOCKS \<Longrightarrow> symbol \<noteq> []"
  by (simp add: MONITORED_STOCKS_names)

lemma step_cache:
  assumes "step w w'"
  shows "quoteCache_data w' = quoteCache_data w \<or>
         (\<exists>symbol entry. symbol \<noteq> [] \<and>
            quoteCache_data w' = AList.update symbol entry (quoteCache_data w))"
  using assms
proof cases
  case (request hs e req)
  then show ?thesis using app_cache [of hs e req w] by simp
next
  case (resume symbol e res)
  then show ?thesis using quote_fetch_cache [of symbol e res w] by simp
next
  case (refresh symbol e)
  then show ?thesis
    using update_symbol_cache [of symbol e w] MONITORED_STOCKS_nonempty [of symbol] by simp
next
  case refresh_log
  then show ?thesis by (simp add: console_log_world)
next
  case refresh_done
  then show ?thesis by (simp add: update_done_def console_log_def Let_def)
next
  case (elapse ms)
  then show ?thesis by (simp add: delay_def)
qed

lemma step_keys:
  assumes "step w w'"
  shows "fst ` set (quoteCache_data w) \<subseteq> fst ` set (quoteCache_data w')"
proof -
  from step_cache [OF assms] consider
    (same) "quoteCache_data w' = quoteCache_data w"
  | (put) key entry where "quoteCache_data w' = AList.update key entry (quoteCache_data w)"
    by blast
  then show ?thesis
  proof cases
    case same
    then show ?thesis by simp
  next
    case put
    then show ?thesis by (simp add: dom_update subset_insertI)
  qed
qed

lemma reachable_no_empty_key: "reachable w \<Longrightarrow> [] \<notin> fst ` set (quoteCache_data w)"
proof (induction rule: reachable.induct)
  case (start t0)
  show ?case by (simp add: initial_def)
next
  case (after w w')
  from step_cache [OF after.hyps(2)] consider
    (same) "quoteCache_data w' = quoteCache_data w"
  | (put) key entry where "key \<noteq> []"
      "quoteCache_data w' = AList.update key entry (quoteCache_data w)"
    by blast
  then show ?case
  proof cases
    case same
    with after.IH show ?thesis by simp
  next
    case put
    with after.IH show ?thesis by (simp add: dom_update)
  qed
qed

text \<open>A pass of the refresher is a run of steps.\<close>

lemma update_loop_steps: "set symbols \<subseteq> set MONITORED_STOCKS \<Longrightarrow> step\<^sup>*\<^sup>* w (update_loop e symbols w)"
proof (induction symbols arbitrary: w)
  case Nil
  show ?case by simp
next
  case (Cons x rest)
  have "step w (update_symbol e x w)" using Cons.prems by (simp add: step.refresh)
  moreover have "step\<^sup>*\<^sup>* (update_symbol e x w) (update_loop e rest (update_symbol e x w))"
    using Cons.prems by (intro Cons.IH) simp
  ultimately show ?case by (simp add: converse_rtranclp_into_rtranclp)
qed

lemma updateAllStocks_steps: "step\<^sup>*\<^sup>* w (updateAllStocks e w)"
proof -
  let ?w0 = "console_log [Str ''Updating stock data from Finnhub...''] w"
  have a: "step w ?w0" by (rule step.refresh_log)
  have b: "step\<^sup>*\<^sup>* ?w0 (update_loop e MONITORED_STOCKS ?w0)"
    by (rule update_loop_steps) simp
  have c: "step (update_loop e MONITORED_STOCKS ?w0) (updateAllStocks e w)"
    unfolding updateAllStocks_def by (rule step.refresh_done)
  from converse_rtranclp_into_rtranclp [of step, OF a b] c show ?thesis
    by (rule rtranclp.rtrancl_into_rtrancl)
qed

section \<open>The cache never loses a key\<close>

text \<open>
  C8. The key set of the cache never shrinks. Every step of the process (a request
  through the application with any of its read paths, an on-demand write of
  \<^verbatim>\<open>/api/quote\<close>, an iteration of the refresher, the end of a pass, time passing)
  leaves the cache as it is or assigns to one key, so along every run a symbol that is
  in the cache stays in it.
\<close>

theorem cache_keys_never_shrink:
  "step\<^sup>*\<^sup>* w w' \<Longrightarrow> fst ` set (quoteCache_data w) \<subseteq> fst ` set (quoteCache_data w')"
proof (induction rule: rtranclp_induct)
  case base
  show ?case by simp
next
  case (step y z)
  from step.IH step_keys [OF step.hyps(2)] show ?case by blast
qed

theorem cache_keys_never_shrink_witness:
  "step\<^sup>*\<^sup>* w_aapl (updateAllStocks up_down w_aapl) \<and>
   fst ` set (quoteCache_data w_aapl) = {''AAPL''} \<and>
   ''AAPL'' \<in> fst ` set (quoteCache_data (updateAllStocks up_down w_aapl))"
proof -
  have k: "fst ` set (quoteCache_data w_aapl) = {''AAPL''}"
    by (simp add: w_aapl_def initial_def)
  from cache_keys_never_shrink [OF updateAllStocks_steps, of w_aapl up_down] k
  show ?thesis by (simp add: updateAllStocks_steps)
qed

section \<open>The handler of \<^verbatim>\<open>/api/quote\<close>\<close>

lemma res_fields:
  "statusCode (res_json v res) = statusCode res"
  "body (res_json v res) = Json v"
  "headers (res_json v res) = headers res"
  "statusCode (res_status code res) = code"
  "headers (res_status code res) = headers res"
  "statusCode (res_send text res) = statusCode res"
  "body (res_send text res) = Text text"
  "headers (res_send text res) = headers res"
  "statusCode (res_header name h res) = statusCode res"
  "body (res_header name h res) = body res"
  by (simp_all add: res_json_def res_status_def res_send_def res_header_def)

lemma example_env_fields:
  "elapsed up_ok url = 120"
  "elapsed up_down url = 120"
  "elapsed up_data url = 120"
  "quote_url up_ok symbol = ''https://finnhub.io/api/v1/quote?symbol='' @ symbol @ ''&token=key''"
  "quote_url up_down symbol = ''https://finnhub.io/api/v1/quote?symbol='' @ symbol @ ''&token=key''"
  by (simp_all add: up_ok_def up_down_def up_data_def quote_url_def)

lemma w_served_world:
  "quoteCache_data w_served = [(''AAPL'', \<lparr> data = quote_body, timestamp = 1120 \<rparr>)]"
  "clock w_served = 1120"
  "quoteCache_lastUpdated w_served = 0"
  "sent w_served = [''https://finnhub.io/api/v1/quote?symbol=AAPL&token=key'']"
  "quoteCache_proto w_served = None"
  by (simp_all add: w_served_def app_def dispatch_def req_quote_def limiter_def recent_hits_def
      api_quote_def cache_get_def quote_fetch_eq fetched_examples fetchStockData_world
      cache_put_def Date_now_def delay_def initial_def Let_def max_requests_def quote_body_def
      example_env_fields)

lemma cache_get_own:
  "map_of (quoteCache_data w) symbol = Some entry \<Longrightarrow> cache_get w symbol = Entry entry"
  by (simp add: cache_get_def)

lemma w_served_reachable: "reachable (delay ms w_served)"
proof -
  have "reachable (initial 0)" by (rule reachable.start)
  then have "reachable (delay 1000 (initial 0))"
    by (rule reachable.after) (rule step.elapse)
  then have "reachable w_served"
    unfolding w_served_def by (rule reachable.after) (rule step.request)
  then show ?thesis
    by (rule reachable.after) (rule step.elapse)
qed

text \<open>
  C2. A request \<^verbatim>\<open>GET /api/quote?symbol=S\<close> reaches the handler in a state of the
  process whose cache holds for \<open>S\<close> the payload \<open>P\<close> written at time \<open>T\<close>. If the time of
  the request is less than \<open>T\<close> plus 180 seconds, the answer is status 200 with body \<open>P\<close>
  and the state is as before: no request went upstream. If it is \<open>T\<close> plus 180 seconds or
  more, the handler sends one request upstream, for \<open>S\<close>.
\<close>

theorem api_quote_serves_fresh_entry:
  assumes "reachable w"
    and "query_symbol req = Some S"
    and "map_of (quoteCache_data w) S = Some \<lparr> data = P, timestamp = T \<rparr>"
    and "statusCode res = 200"
  shows "(Date_now w < T + 180 * 1000 \<longrightarrow>
            statusCode (fst (api_quote e req res w)) = 200 \<and>
            body (fst (api_quote e req res w)) = Json P \<and>
            snd (api_quote e req res w) = w \<and>
            sent (snd (api_quote e req res w)) = sent w) \<and>
         (T + 180 * 1000 \<le> Date_now w \<longrightarrow>
            sent (snd (api_quote e req res w)) = sent w @ [quote_url e S])"
proof -
  from assms(3) have "S \<in> fst ` set (quoteCache_data w)"
    by (metis domI dom_map_of_conv_image_fst)
  with reachable_no_empty_key [OF assms(1)] have S: "S \<noteq> []" by blast
  show ?thesis
  proof (cases "Date_now w < T + 180 * 1000")
    case True
    with assms S cache_get_own [OF assms(3)] show ?thesis
      by (simp add: api_quote_def res_fields)
  next
    case False
    with assms S cache_get_own [OF assms(3)]
    have "api_quote e req res w = quote_fetch e S res w"
      by (simp add: api_quote_def)
    with False show ?thesis by (simp add: quote_fetch_world)
  qed
qed

theorem api_quote_serves_fresh_entry_witness:
  "reachable (delay 179000 w_served) \<and>
   map_of (quoteCache_data (delay 179000 w_served)) ''AAPL'' =
     Some \<lparr> data = quote_body, timestamp = 1120 \<rparr> \<and>
   Date_now (delay 179000 w_served) = 1120 + 179 * 1000 \<and>
   statusCode (fst (api_quote up_down (req_quote (Some ''AAPL'')) new_response
                      (delay 179000 w_served))) = 200 \<and>
   body (fst (api_quote up_down (req_quote (Some ''AAPL'')) new_response
                (delay 179000 w_served))) = Json quote_body \<and>
   sent (snd (api_quote up_down (req_quote (Some ''AAPL'')) new_response
                (delay 179000 w_served))) = sent w_served \<and>
   reachable (delay 181000 w_served) \<and>
   Date_now (delay 181000 w_served) = 1120 + 181 * 1000 \<and>
   sent (snd (api_quote up_down (req_quote (Some ''AAPL'')) new_response
                (delay 181000 w_served))) = sent w_served @ [quote_url up_down ''AAPL'']"
proof -
  have q: "query_symbol (req_quote (Some ''AAPL'')) = Some ''AAPL''"
    by (simp add: req_quote_def)
  have s: "statusCode new_response = 200"
    by (simp add: new_response_def)
  have c: "map_of (quoteCache_data (delay ms w_served)) ''AAPL'' =
      Some \<lparr> data = quote_body, timestamp = 1120 \<rparr>" for ms
    by (simp add: delay_def w_served_world)
  have t: "Date_now (delay ms w_served) = 1120 + int ms" "sent (delay ms w_served) = sent w_served"
    for ms
    by (simp_all add: delay_def Date_now_def w_served_world)
  from api_quote_serves_fresh_entry [OF w_served_reachable q c s, of 179000 up_down]
    api_quote_serves_fresh_entry [OF w_served_reachable q c s, of 181000 up_down]
  show ?thesis
    by (simp add: t c w_served_reachable)
qed

text \<open>
  C7. A request to \<^verbatim>\<open>/api/quote\<close> without the query parameter \<^verbatim>\<open>symbol\<close> that
  reaches the handler is answered with status 400 and the body \<^verbatim>\<open>{ error: 'Symbol parameter is required' }\<close>, whatever
  else the request holds and whatever the state of the process, which it leaves as it is.
\<close>

theorem api_quote_requires_symbol:
  "query_symbol req = None \<Longrightarrow>
   statusCode (fst (api_quote e req res w)) = 400 \<and>
   body (fst (api_quote e req res w)) =
     Json (JObj [(''error'', JStr ''Symbol parameter is required'')]) \<and>
   snd (api_quote e req res w) = w"
  by (simp add: api_quote_def res_fields)

theorem api_quote_requires_symbol_witness:
  "query_symbol (req_quote None) = None \<and>
   statusCode (fst (api_quote up_ok (req_quote None) new_response w_served)) = 400 \<and>
   body (fst (api_quote up_ok (req_quote None) new_response w_served)) =
     Json (JObj [(''error'', JStr ''Symbol parameter is required'')]) \<and>
   snd (api_quote up_ok (req_quote None) new_response w_served) = w_served"
proof -
  have q: "query_symbol (req_quote None) = None"
    by (simp add: req_quote_def)
  from api_quote_requires_symbol [OF q, of up_ok new_response w_served] q
  show ?thesis by simp
qed

text \<open>
  C10. A request \<^verbatim>\<open>GET /api/quote?symbol=S\<close> reaches the handler in a state of the
  process whose cache holds for \<open>S\<close> an entry written 3 minutes ago or more, and the
  fetch returns null. The answer is status 404 with the body
  \<^verbatim>\<open>{ error: 'Symbol data not available' }\<close>, not the stale payload, and the cache is
  what it was: the entry is there with the same payload and the same timestamp.
\<close>

theorem api_quote_stale_and_absent:
  assumes "reachable w"
    and "query_symbol req = Some S"
    and "map_of (quoteCache_data w) S = Some entry"
    and "3 * 60 * 1000 \<le> Date_now w - timestamp entry"
    and "fetched e S = JNull"
  shows "statusCode (fst (api_quote e req res w)) = 404 \<and>
         body (fst (api_quote e req res w)) =
           Json (JObj [(''error'', JStr ''Symbol data not available'')]) \<and>
         quoteCache_data (snd (api_quote e req res w)) = quoteCache_data w \<and>
         map_of (quoteCache_data (snd (api_quote e req res w))) S = Some entry"
proof -
  from assms(3) have "S \<in> fst ` set (quoteCache_data w)"
    by (metis domI dom_map_of_conv_image_fst)
  with reachable_no_empty_key [OF assms(1)] have S: "S \<noteq> []" by blast
  with assms cache_get_own [OF assms(3)]
  have "api_quote e req res w = quote_fetch e S res w"
    by (simp add: api_quote_def)
  with assms(3,5) show ?thesis
    by (simp add: quote_fetch_eq fetchStockData_world res_fields)
qed

theorem api_quote_stale_and_absent_witness:
  "reachable (delay 180000 w_served) \<and>
   map_of (quoteCache_data (delay 180000 w_served)) ''AAPL'' =
     Some \<lparr> data = quote_body, timestamp = 1120 \<rparr> \<and>
   Date_now (delay 180000 w_served) - 1120 = 3 * 60 * 1000 \<and>
   fetched up_down ''AAPL'' = JNull \<and>
   statusCode (fst (api_quote up_down (req_quote (Some ''AAPL'')) new_response
                      (delay 180000 w_served))) = 404 \<and>
   body (fst (api_quote up_down (req_quote (Some ''AAPL'')) new_response
                (delay 180000 w_served))) =
     Json (JObj [(''error'', JStr ''Symbol data not available'')]) \<and>
   quoteCache_data (snd (api_quote up_down (req_quote (Some ''AAPL'')) new_response
                           (delay 180000 w_served))) =
     [(''AAPL'', \<lparr> data = quote_body, timestamp = 1120 \<rparr>)]"
proof -
  have q: "query_symbol (req_quote (Some ''AAPL'')) = Some ''AAPL''"
    by (simp add: req_quote_def)
  have c: "map_of (quoteCache_data (delay 180000 w_served)) ''AAPL'' =
      Some \<lparr> data = quote_body, timestamp = 1120 \<rparr>"
    by (simp add: delay_def w_served_world)
  have t: "3 * 60 * 1000 \<le> Date_now (delay 180000 w_served) -
      timestamp \<lparr> data = quote_body, timestamp = 1120 \<rparr>"
    by (simp add: delay_def Date_now_def w_served_world)
  have f: "fetched up_down ''AAPL'' = JNull"
    by (simp add: fetched_examples)
  have n: "Date_now (delay 180000 w_served) = 181120"
    "quoteCache_data (delay 180000 w_served) =
       [(''AAPL'', \<lparr> data = quote_body, timestamp = 1120 \<rparr>)]"
    by (simp_all add: delay_def Date_now_def w_served_world)
  from api_quote_stale_and_absent [OF w_served_reachable q c t f, of new_response]
  show ?thesis
    by (simp add: n f w_served_reachable)
qed

section \<open>The handler of \<^verbatim>\<open>/api/quotes\<close>\<close>

text \<open>
  While the prototype of the cache object is the one it was created with, the loop
  yields exactly the own keys, each with the payload of its entry.
\<close>

lemma quotes_loop_result:
  assumes "quoteCache_proto w = None"
    and "set symbols \<subseteq> fst ` set (quoteCache_data w)"
    and "''__proto__'' \<notin> set symbols"
  shows "\<exists>result_data. quotes_loop symbols w acc = Inr result_data \<and>
           fst ` set result_data = fst ` set acc \<union> set symbols \<and>
           (\<forall>symbol. map_of result_data symbol =
              (if symbol \<in> set symbols then map_option data (map_of (quoteCache_data w) symbol)
               else map_of acc symbol)) \<and>
           (distinct (map fst acc) \<longrightarrow> distinct (map fst result_data))"
  using assms(2,3)
proof (induction symbols arbitrary: acc)
  case Nil
  show ?case by simp
next
  case (Cons x rest)
  from Cons.prems have "x \<in> fst ` set (quoteCache_data w)" by simp
  then obtain entry where entry: "map_of (quoteCache_data w) x = Some entry"
    by (metis domD dom_map_of_conv_image_fst)
  from Cons.prems have x: "x \<noteq> ''__proto__''" by auto
  let ?acc = "AList.update x (data entry) acc"
  have step: "quotes_loop (x # rest) w acc = quotes_loop rest w ?acc"
    using entry x by (simp add: cache_get_def result_put_def)
  from Cons.prems have "set rest \<subseteq> fst ` set (quoteCache_data w)" "''__proto__'' \<notin> set rest"
    by simp_all
  from Cons.IH [OF this, of ?acc] obtain result_data where
    r: "quotes_loop rest w ?acc = Inr result_data"
    and k: "fst ` set result_data = fst ` set ?acc \<union> set rest"
    and v: "\<And>symbol. map_of result_data symbol =
              (if symbol \<in> set rest then map_option data (map_of (quoteCache_data w) symbol)
               else map_of ?acc symbol)"
    and d: "distinct (map fst ?acc) \<longrightarrow> distinct (map fst result_data)"
    by blast
  have "quotes_loop (x # rest) w acc = Inr result_data"
    using step r by simp
  moreover have "fst ` set result_data = fst ` set acc \<union> set (x # rest)"
    using k by (simp add: dom_update)
  moreover have "map_of result_data symbol =
      (if symbol \<in> set (x # rest) then map_option data (map_of (quoteCache_data w) symbol)
       else map_of acc symbol)" for symbol
    using v [of symbol] entry by (simp add: update_conv')
  moreover have "distinct (map fst acc) \<longrightarrow> distinct (map fst result_data)"
    using d by (simp add: distinct_update)
  ultimately show ?case by blast
qed

lemma api_quotes_own_entries:
  assumes "quoteCache_proto w = None"
    and "''__proto__'' \<notin> fst ` set (quoteCache_data w)"
  shows "\<exists>result_data.
     fst (api_quotes req res w) =
       res_json (JObj [(''lastUpdated'', JNum (of_int (quoteCache_lastUpdated w))),
                       (''data'', JObj result_data)]) res \<and>
     fst ` set result_data = fst ` set (quoteCache_data w) \<and>
     distinct (map fst result_data) \<and>
     (\<forall>symbol. map_of result_data symbol =
        map_option data (map_of (quoteCache_data w) symbol)) \<and>
     snd (api_quotes req res w) = w"
proof -
  have keys: "for_in_keys w = map fst (quoteCache_data w)"
    using assms(1) by (simp add: for_in_keys_def)
  from quotes_loop_result [OF assms(1), of "map fst (quoteCache_data w)" "[]"] assms(2)
  obtain result_data where
    r: "quotes_loop (map fst (quoteCache_data w)) w [] = Inr result_data"
    and k: "fst ` set result_data = fst ` set (quoteCache_data w)"
    and v: "\<And>symbol. map_of result_data symbol =
              (if symbol \<in> fst ` set (quoteCache_data w)
               then map_option data (map_of (quoteCache_data w) symbol) else None)"
    and d: "distinct (map fst result_data)"
    by auto
  have "map_of result_data symbol = map_option data (map_of (quoteCache_data w) symbol)"
    for symbol
    using v [of symbol] by (auto simp add: map_of_eq_None_iff)
  with r k d keys show ?thesis
    by (intro exI [of _ result_data]) (simp add: api_quotes_def)
qed

lemma api_quotes_example:
  "fst (api_quotes (req_quote None) new_response w_served) =
     res_json (JObj [(''lastUpdated'', JNum 0),
                     (''data'', JObj [(''AAPL'', quote_body)])]) new_response"
  by (simp add: api_quotes_def for_in_keys_def cache_get_def result_put_def w_served_world)

lemma w_proto_world:
  "fetched e ''__proto__'' = d \<Longrightarrow> truthy d \<Longrightarrow>
   quoteCache_data (w_proto e) = [] \<and>
   quoteCache_proto (w_proto e) =
     Some \<lparr> data = d, timestamp = 1000 + int (elapsed e (quote_url e ''__proto__'')) \<rparr> \<and>
   quoteCache_lastUpdated (w_proto e) = 0 \<and>
   clock (w_proto e) = 1000 + int (elapsed e (quote_url e ''__proto__''))"
  by (simp add: w_proto_def app_def dispatch_def req_quote_def limiter_def recent_hits_def
      api_quote_def cache_get_def quote_fetch_eq fetchStockData_world cache_put_world
      Date_now_def delay_def initial_def Let_def max_requests_def)

text \<open>
  C5 fails on the code. One second after the start a request
  \<^verbatim>\<open>GET /api/quote?symbol=__proto__\<close> is answered from the upstream. The handler stores
  the quote by an assignment to \<^verbatim>\<open>quoteCache.data['__proto__']\<close>, which replaces the
  prototype of the cache object: the quote is cached, and the same request a second later
  is answered from it, with nothing sent upstream. But the cache object has no own
  property for it, and the \<^verbatim>\<open>data\<close> of \<^verbatim>\<open>/api/quotes\<close> is empty. The loop walks the two
  fields of the stored entry instead: with a payload that has a field \<^verbatim>\<open>data\<close>, the
  answer lists a key \<^verbatim>\<open>data\<close> that no request stored.
\<close>

theorem api_quotes_misses_proto_quote:
  "cache_get (w_proto up_ok) ''__proto__'' = Entry \<lparr> data = quote_body, timestamp = 1120 \<rparr> \<and>
   api_quote up_down (req_quote (Some ''__proto__'')) new_response (delay 1000 (w_proto up_ok)) =
     (res_json quote_body new_response, delay 1000 (w_proto up_ok)) \<and>
   quoteCache_data (w_proto up_ok) = [] \<and>
   fst (api_quotes (req_quote None) new_response (w_proto up_ok)) =
     res_json (JObj [(''lastUpdated'', JNum 0), (''data'', JObj [])]) new_response \<and>
   quoteCache_data (w_proto up_data) = [] \<and>
   fst (api_quotes (req_quote None) new_response (w_proto up_data)) =
     res_json (JObj [(''lastUpdated'', JNum 0), (''data'', JObj [(''data'', JNum 5)])])
       new_response"
proof -
  have ok: "quoteCache_data (w_proto up_ok) = []"
    "quoteCache_proto (w_proto up_ok) = Some \<lparr> data = quote_body, timestamp = 1120 \<rparr>"
    "quoteCache_lastUpdated (w_proto up_ok) = 0"
    "clock (w_proto up_ok) = 1120"
    using w_proto_world [of up_ok quote_body]
    by (simp_all add: fetched_examples quote_body_def example_env_fields)
  have da: "quoteCache_data (w_proto up_data) = []"
    "quoteCache_proto (w_proto up_data) =
       Some \<lparr> data = JObj [(''data'', JNum 5)], timestamp = 1120 \<rparr>"
    "quoteCache_lastUpdated (w_proto up_data) = 0"
    using w_proto_world [of up_data "JObj [(''data'', JNum 5)]"]
    by (simp_all add: fetched_examples example_env_fields)
  have 1: "cache_get (w_proto up_ok) ''__proto__'' =
      Entry \<lparr> data = quote_body, timestamp = 1120 \<rparr>"
    by (simp add: cache_get_def ok)
  have "cache_get (delay 1000 (w_proto up_ok)) ''__proto__'' =
      Entry \<lparr> data = quote_body, timestamp = 1120 \<rparr>"
    by (simp add: cache_get_def delay_def ok)
  then have 2: "api_quote up_down (req_quote (Some ''__proto__'')) new_response
      (delay 1000 (w_proto up_ok)) = (res_json quote_body new_response, delay 1000 (w_proto up_ok))"
    by (simp add: api_quote_def req_quote_def Date_now_def delay_def ok)
  have 3: "fst (api_quotes (req_quote None) new_response (w_proto up_ok)) =
     res_json (JObj [(''lastUpdated'', JNum 0), (''data'', JObj [])]) new_response"
    by (simp add: api_quotes_def for_in_keys_def cache_get_def result_put_def ok quote_body_def)
  have 4: "fst (api_quotes (req_quote None) new_response (w_proto up_data)) =
     res_json (JObj [(''lastUpdated'', JNum 0), (''data'', JObj [(''data'', JNum 5)])])
       new_response"
    by (simp add: api_quotes_def for_in_keys_def cache_get_def result_put_def da)
  from 1 2 3 4 ok(1) da(1) show ?thesis by simp
qed

section \<open>The CORS headers\<close>

text \<open>
  C6. The CORS middleware sets \<^verbatim>\<open>Access-Control-Allow-Headers\<close> to the fixed list on
  every request it handles. On a response that carries no \<^verbatim>\<open>Access-Control-Allow-Origin\<close>
  header when it reaches the middleware, the header is there afterwards exactly when
  the request's \<^verbatim>\<open>Origin\<close> header is equal to one of the two allowed origins, and then
  its value is that origin; for any other origin, and for a request without the header,
  it is absent.
\<close>

theorem cors_reflects_allowed_origin:
  assumes "map_of (headers res) ''Access-Control-Allow-Origin'' = None"
  shows "map_of (headers (cors req res)) ''Access-Control-Allow-Headers'' =
           Some (HStr ''Origin, X-Requested-With, Content-Type, Accept, X-API-Key'') \<and>
         map_of (headers (cors req res)) ''Access-Control-Allow-Origin'' =
           (if headers_origin req = Some ''https://hw-invest.web.app'' \<or>
               headers_origin req = Some ''https://hw-invest.firebaseapp.com''
            then map_option HStr (headers_origin req) else None)"
  using assms
  by (cases "headers_origin req")
     (auto simp add: cors_def allowedOrigins_def res_header_def update_conv' Let_def)

theorem cors_reflects_allowed_origin_witness:
  "map_of (headers new_response) ''Access-Control-Allow-Origin'' = None \<and>
   map_of (headers (cors (req_quote None) new_response)) ''Access-Control-Allow-Origin'' =
     Some (HStr ''https://hw-invest.web.app'') \<and>
   map_of (headers (cors ((req_quote None)\<lparr> headers_origin := Some ''https://evil.example'' \<rparr>)
                      new_response)) ''Access-Control-Allow-Origin'' = None \<and>
   map_of (headers (cors ((req_quote None)\<lparr> headers_origin := Some ''https://evil.example'' \<rparr>)
                      new_response)) ''Access-Control-Allow-Headers'' =
     Some (HStr ''Origin, X-Requested-With, Content-Type, Accept, X-API-Key'')"
proof -
  have h: "map_of (headers new_response) ''Access-Control-Allow-Origin'' = None"
    by (simp add: new_response_def)
  from cors_reflects_allowed_origin [OF h, of "req_quote None"]
    cors_reflects_allowed_origin
      [OF h, of "(req_quote None)\<lparr> headers_origin := Some ''https://evil.example'' \<rparr>"]
  show ?thesis
    by (simp add: h req_quote_def)
qed

section \<open>The rate limiter in front of the routes\<close>

lemma helmet_status: "statusCode (helmet hs res) = statusCode res"
  unfolding helmet_def
  by (induction hs arbitrary: res) (simp_all add: res_fields split: prod.split)

lemma dispatch_world:
  "hits (snd (dispatch e req res w)) = hits w"
  "clock w \<le> clock (snd (dispatch e req res w))"
proof -
  have "hits (snd (api_quote e req r w)) = hits w \<and> clock w \<le> clock (snd (api_quote e req r w))"
    for r
    using api_quote_cases [of e req r w] by (auto simp add: quote_fetch_world)
  then show "hits (snd (dispatch e req res w)) = hits w"
    "clock w \<le> clock (snd (dispatch e req res w))"
    by (cases "route req"; simp add: dispatch_def api_quotes_world api_status_def)+
qed

lemma app_passes:
  assumes "under_api (route req)" "length (recent_hits w (ip req)) < max_requests"
  shows "\<exists>res1 w1. limiter req (helmet hs new_response) w = (Next res1, w1) \<and>
           app hs e req w = dispatch e req res1 w1"
  using assms by (simp add: app_def limiter_def Let_def)

lemma app_rejects:
  assumes "under_api (route req)" "max_requests \<le> length (recent_hits w (ip req))"
  shows "\<exists>res1 w1. limiter req (helmet hs new_response) w = (End res1, w1) \<and>
           app hs e req w = (res1, w1) \<and>
           statusCode res1 = 429 \<and>
           body res1 = Text ''Too many requests, please try again later'' \<and>
           map_of (headers res1) ''RateLimit-Limit'' = Some (HNum 100) \<and>
           map_of (headers res1) ''RateLimit-Remaining'' = Some (HNum 0) \<and>
           map_of (headers res1) ''RateLimit-Reset'' \<noteq> None \<and>
           quoteCache_data w1 = quoteCache_data w \<and>
           quoteCache_lastUpdated w1 = quoteCache_lastUpdated w \<and>
           sent w1 = sent w"
  using assms
  by (simp add: app_def limiter_def Let_def res_fields res_header_def res_send_def
      res_status_def update_conv' limit_message_def max_requests_def)

lemma app_hits:
  "under_api (route req) \<Longrightarrow>
   hits (snd (app hs e req w)) = (hits w)(ip req := recent_hits w (ip req) @ [clock w])"
  by (cases "max_requests < length (recent_hits w (ip req)) + 1")
     (simp_all add: app_def limiter_def Let_def dispatch_world Date_now_def)

lemma app_clock: "clock w \<le> clock (snd (app hs e req w))"
proof (cases "under_api (route req)")
  case False
  then show ?thesis by (simp add: app_def dispatch_world)
next
  case True
  show ?thesis
  proof (cases "length (recent_hits w (ip req)) < max_requests")
    case False
    with True show ?thesis by (simp add: app_def limiter_def Let_def)
  next
    case passes: True
    from app_passes [OF True passes, of hs e] obtain res1 w1 where
      l: "limiter req (helmet hs new_response) w = (Next res1, w1)"
      and a: "app hs e req w = dispatch e req res1 w1"
      by blast
    from l limiter_world(3) [of req "helmet hs new_response" w] have "clock w1 = clock w"
      by simp
    with a dispatch_world(2) [of w1 e req res1] show ?thesis by simp
  qed
qed

lemma serve_clock: "clock w \<le> clock (snd (serve hs burst w))"
proof (induction burst arbitrary: w)
  case Nil
  show ?case by simp
next
  case (Cons x rest)
  obtain gap e req where x: "x = (gap, e, req)" by (cases x)
  let ?w1 = "snd (app hs e req (delay gap w))"
  have "clock w \<le> clock (delay gap w)" by (simp add: delay_def)
  also have "\<dots> \<le> clock ?w1" by (rule app_clock)
  also have "\<dots> \<le> clock (snd (serve hs rest ?w1))" by (rule Cons.IH)
  also have "snd (serve hs rest ?w1) = snd (serve hs (x # rest) w)"
    by (simp add: x split: prod.split)
  finally show ?case .
qed

text \<open>
  The requests of one address counted since time \<open>t0\<close>, in a store where every older
  one has left the window by \<open>t0\<close>.
\<close>

lemma recent_hits_since:
  assumes old: "\<forall>h \<in> set (hits w a). t0 \<le> h \<or> windowMs \<le> t0 - h"
    and now: "\<forall>h \<in> set (hits w a). h \<le> clock w"
    and t: "t0 \<le> clock w" "clock w < t0 + windowMs"
  shows "recent_hits w a = filter (\<lambda>h. t0 \<le> h) (hits w a)"
  unfolding recent_hits_def Date_now_def
proof (rule filter_cong [OF refl])
  fix h assume h: "h \<in> set (hits w a)"
  from old h have "t0 \<le> h \<or> windowMs \<le> t0 - h" by blast
  with t show "(clock w - h < windowMs) = (t0 \<le> h)" by auto
qed

lemma app_hits_other:
  "ip req \<noteq> a \<or> \<not> under_api (route req) \<Longrightarrow> hits (snd (app hs e req w)) a = hits w a"
proof (cases "under_api (route req)")
  case False
  then show ?thesis by (simp add: app_def dispatch_world)
next
  case True
  assume "ip req \<noteq> a \<or> \<not> under_api (route req)"
  with True have "ip req \<noteq> a" by simp
  with app_hits [OF True, of hs e w] show ?thesis by simp
qed

lemma serve_counts:
  assumes "\<forall>h \<in> set (hits w a). t0 \<le> h \<or> windowMs \<le> t0 - h"
    and "\<forall>h \<in> set (hits w a). h \<le> clock w"
    and "t0 \<le> clock w"
    and "clock (snd (serve hs burst w)) < t0 + windowMs"
  shows "(\<forall>h \<in> set (hits (snd (serve hs burst w)) a). t0 \<le> h \<or> windowMs \<le> t0 - h) \<and>
         (\<forall>h \<in> set (hits (snd (serve hs burst w)) a). h \<le> clock (snd (serve hs burst w))) \<and>
         length (filter (\<lambda>h. t0 \<le> h) (hits (snd (serve hs burst w)) a)) =
           length (filter (\<lambda>h. t0 \<le> h) (hits w a)) +
           length (filter (\<lambda>(gap, e, req). ip req = a \<and> under_api (route req)) burst)"
  using assms
proof (induction burst arbitrary: w)
  case Nil
  then show ?case by simp
next
  case (Cons x rest)
  obtain gap e req where x: "x = (gap, e, req)" by (cases x)
  let ?w0 = "delay gap w"
  let ?w1 = "snd (app hs e req ?w0)"
  have s: "snd (serve hs (x # rest) w) = snd (serve hs rest ?w1)"
    by (simp add: x split: prod.split)
  have w0: "hits ?w0 = hits w" "clock w \<le> clock ?w0" by (simp_all add: delay_def)
  have c01: "clock ?w0 \<le> clock ?w1" by (rule app_clock)
  have "clock ?w1 \<le> clock (snd (serve hs rest ?w1))" by (rule serve_clock)
  with Cons.prems(4) s have c1: "clock ?w1 < t0 + windowMs" by simp
  have t0: "t0 \<le> clock ?w0" using Cons.prems(3) w0 by simp
  have t1: "t0 \<le> clock ?w1" using t0 c01 by simp
  show ?case
  proof (cases "ip req = a \<and> under_api (route req)")
    case True
    have recent: "recent_hits ?w0 a = filter (\<lambda>h. t0 \<le> h) (hits w a)"
      using recent_hits_since [of ?w0 a t0] Cons.prems(1,2,3) w0 c01 c1 by fastforce
    have h1: "hits ?w1 a = filter (\<lambda>h. t0 \<le> h) (hits w a) @ [clock ?w0]"
      using app_hits [of req hs e ?w0] True recent by simp
    have old1: "\<forall>h \<in> set (hits ?w1 a). t0 \<le> h \<or> windowMs \<le> t0 - h"
      using t0 by (simp add: h1)
    have now1: "\<forall>h \<in> set (hits ?w1 a). h \<le> clock ?w1"
      using Cons.prems(2) w0 c01 by (fastforce simp add: h1)
    have len1: "length (filter (\<lambda>h. t0 \<le> h) (hits ?w1 a)) =
        length (filter (\<lambda>h. t0 \<le> h) (hits w a)) + 1"
      using t0 by (simp add: h1)
    from Cons.IH [OF old1 now1 t1] Cons.prems(4) s len1 True show ?thesis
      by (simp add: x)
  next
    case False
    then have h1: "hits ?w1 a = hits w a"
      using app_hits_other [of req a hs e ?w0] w0 by auto
    have old1: "\<forall>h \<in> set (hits ?w1 a). t0 \<le> h \<or> windowMs \<le> t0 - h"
      using Cons.prems(1) by (simp add: h1)
    have now1: "\<forall>h \<in> set (hits ?w1 a). h \<le> clock ?w1"
      using Cons.prems(2) w0 c01 by (fastforce simp add: h1)
    from Cons.IH [OF old1 now1 t1] Cons.prems(4) s h1 False show ?thesis
      by (simp add: x)
  qed
qed

text \<open>
  C9. A client address \<open>a\<close> has no request counted in the last 15 minutes. From then
  on the server answers a run of requests, of this and of other addresses, and then,
  less than 15 minutes after that moment, a request of \<open>a\<close> to a path under \<^verbatim>\<open>/api/\<close>
  arrives; \<open>n\<close> is the number of requests of \<open>a\<close> to such paths in the run. When \<open>n\<close> is
  less than 100 (the request is one of the first 100 of the window), the limiter passes
  it on and the answer is the one of the CORS middleware and the route. When \<open>n\<close> is 100
  (the request is the 101st) or more, the limiter ends the request: status 429, the fixed
  message, the \<^verbatim>\<open>RateLimit\<close> headers; the cache, \<^verbatim>\<open>lastUpdated\<close> and the trace of
  upstream requests are what they were when it arrived.
\<close>

theorem limiter_rejects_101st:
  assumes "ip req = a" and "under_api (route req)"
    and "recent_hits w a = []"
    and "w' = delay gap (snd (serve hs earlier w))"
    and "clock w' < clock w + windowMs"
    and "n = length (filter (\<lambda>(gap, e, r). ip r = a \<and> under_api (route r)) earlier)"
  shows "(n < 100 \<longrightarrow>
            (\<exists>res1 w1. limiter req (helmet hs new_response) w' = (Next res1, w1) \<and>
               app hs e req w' = dispatch e req res1 w1)) \<and>
         (100 \<le> n \<longrightarrow>
            (\<exists>res1 w1. limiter req (helmet hs new_response) w' = (End res1, w1) \<and>
               app hs e req w' = (res1, w1) \<and>
               statusCode res1 = 429 \<and>
               body res1 = Text ''Too many requests, please try again later'' \<and>
               map_of (headers res1) ''RateLimit-Limit'' = Some (HNum 100) \<and>
               map_of (headers res1) ''RateLimit-Remaining'' = Some (HNum 0) \<and>
               map_of (headers res1) ''RateLimit-Reset'' \<noteq> None \<and>
               quoteCache_data w1 = quoteCache_data w' \<and>
               quoteCache_lastUpdated w1 = quoteCache_lastUpdated w' \<and>
               sent w1 = sent w'))"
proof -
  let ?t0 = "clock w"
  let ?ws = "snd (serve hs earlier w)"
  have gone: "\<forall>h \<in> set (hits w a). windowMs \<le> ?t0 - h"
  proof
    fix h assume "h \<in> set (hits w a)"
    with assms(3) have "\<not> (clock w - h < windowMs)"
      by (simp add: recent_hits_def Date_now_def filter_empty_conv)
    then show "windowMs \<le> ?t0 - h" by simp
  qed
  have W: "0 < windowMs" by (simp add: windowMs_def)
  have old: "\<forall>h \<in> set (hits w a). ?t0 \<le> h \<or> windowMs \<le> ?t0 - h"
    using gone by blast
  have now: "\<forall>h \<in> set (hits w a). h \<le> clock w"
    using gone W by fastforce
  have none: "filter (\<lambda>h. ?t0 \<le> h) (hits w a) = []"
    using gone W by (fastforce simp add: filter_empty_conv)
  have cs: "clock ?ws \<le> clock w'" by (simp add: assms(4) delay_def)
  with assms(5) have bound: "clock ?ws < ?t0 + windowMs" by simp
  from serve_counts [OF old now _ bound] none assms(6)
  have olds: "\<forall>h \<in> set (hits ?ws a). ?t0 \<le> h \<or> windowMs \<le> ?t0 - h"
    and nows: "\<forall>h \<in> set (hits ?ws a). h \<le> clock ?ws"
    and len: "length (filter (\<lambda>h. ?t0 \<le> h) (hits ?ws a)) = n"
    by simp_all
  have hw: "hits w' = hits ?ws" by (simp add: assms(4) delay_def)
  have "?t0 \<le> clock ?ws" by (rule serve_clock)
  with cs have t: "?t0 \<le> clock w'" by simp
  have "recent_hits w' a = filter (\<lambda>h. ?t0 \<le> h) (hits ?ws a)"
    using recent_hits_since [of w' a ?t0] olds nows cs t assms(5) hw by fastforce
  with len have count: "length (recent_hits w' (ip req)) = n"
    by (simp add: assms(1))
  show ?thesis
  proof (intro conjI impI)
    assume "n < 100"
    with count have "length (recent_hits w' (ip req)) < max_requests"
      by (simp add: max_requests_def)
    from app_passes [OF assms(2) this]
    show "\<exists>res1 w1. limiter req (helmet hs new_response) w' = (Next res1, w1) \<and>
               app hs e req w' = dispatch e req res1 w1" .
  next
    assume "100 \<le> n"
    with count have "max_requests \<le> length (recent_hits w' (ip req))"
      by (simp add: max_requests_def)
    from app_rejects [OF assms(2) this]
    show "\<exists>res1 w1. limiter req (helmet hs new_response) w' = (End res1, w1) \<and>
               app hs e req w' = (res1, w1) \<and>
               statusCode res1 = 429 \<and>
               body res1 = Text ''Too many requests, please try again later'' \<and>
               map_of (headers res1) ''RateLimit-Limit'' = Some (HNum 100) \<and>
               map_of (headers res1) ''RateLimit-Remaining'' = Some (HNum 0) \<and>
               map_of (headers res1) ''RateLimit-Reset'' \<noteq> None \<and>
               quoteCache_data w1 = quoteCache_data w' \<and>
               quoteCache_lastUpdated w1 = quoteCache_lastUpdated w' \<and>
               sent w1 = sent w'" .
  qed
qed

lemma app_no_symbol_clock:
  "clock (snd (app hs e (req_quote None) w)) = clock w"
  by (cases "max_requests < length (recent_hits w (ip (req_quote None))) + 1")
     (simp_all add: app_def limiter_def Let_def dispatch_def api_quote_def req_quote_def)

lemma serve_no_symbol_clock:
  "clock (snd (serve hs (replicate n (0, e, req_quote None)) w)) = clock w"
proof (induction n arbitrary: w)
  case 0
  show ?case by simp
next
  case (Suc n)
  let ?w1 = "snd (app hs e (req_quote None) (delay 0 w))"
  have "clock (snd (serve hs (replicate (Suc n) (0, e, req_quote None)) w)) =
        clock (snd (serve hs (replicate n (0, e, req_quote None)) ?w1))"
    by (simp split: prod.split)
  also have "\<dots> = clock ?w1" by (rule Suc.IH)
  also have "\<dots> = clock w" by (simp add: app_no_symbol_clock delay_def)
  finally show ?case .
qed

theorem limiter_rejects_101st_witness:
  "ip (req_quote None) = ''203.0.113.7'' \<and> under_api (route (req_quote None)) \<and>
   recent_hits (initial 0) ''203.0.113.7'' = [] \<and>
   clock (delay 5 (snd (serve [] (replicate 100 (0, up_ok, req_quote None)) (initial 0))))
     < clock (initial 0) + windowMs \<and>
   length (filter (\<lambda>(gap, e, r). ip r = ''203.0.113.7'' \<and> under_api (route r))
             (replicate 100 (0 :: nat, up_ok, req_quote None))) = 100 \<and>
   statusCode (fst (app [] up_ok (req_quote None)
      (delay 5 (snd (serve [] (replicate 100 (0, up_ok, req_quote None)) (initial 0)))))) = 429 \<and>
   body (fst (app [] up_ok (req_quote None)
      (delay 5 (snd (serve [] (replicate 100 (0, up_ok, req_quote None)) (initial 0)))))) =
     Text ''Too many requests, please try again later'' \<and>
   statusCode (fst (app [] up_ok (req_quote None) (delay 5 (snd (serve [] [] (initial 0)))))) = 400"
proof -
  let ?a = "''203.0.113.7''"
  let ?x = "(0 :: nat, up_ok, req_quote None)"
  let ?w = "delay 5 (snd (serve [] (replicate 100 ?x) (initial 0)))"
  have a: "ip (req_quote None) = ?a" and u: "under_api (route (req_quote None))"
    by (simp_all add: req_quote_def)
  have n: "length (filter (\<lambda>(gap, e, r). ip r = ?a \<and> under_api (route r))
             (replicate 100 ?x)) = 100"
    by (simp add: a u)
  have n0: "0 = length (filter (\<lambda>(gap, e, r). ip r = ?a \<and> under_api (route r))
             ([] :: (nat \<times> env \<times> request) list))"
    by simp
  have r: "recent_hits (initial 0) ?a = []"
    by (simp add: recent_hits_def initial_def)
  have c: "clock ?w < clock (initial 0) + windowMs"
    by (simp add: delay_def serve_no_symbol_clock initial_def windowMs_def)
  have c0: "clock (delay 5 (snd (serve [] [] (initial 0)))) < clock (initial 0) + windowMs"
    by (simp add: delay_def initial_def windowMs_def)
  have bad: "statusCode (fst (dispatch up_ok (req_quote None) res1 w1)) = 400" for res1 w1
    by (simp add: dispatch_def api_quote_def req_quote_def res_fields)
  from limiter_rejects_101st [OF a u r refl c n [symmetric], of up_ok]
  have "statusCode (fst (app [] up_ok (req_quote None) ?w)) = 429 \<and>
        body (fst (app [] up_ok (req_quote None) ?w)) =
          Text ''Too many requests, please try again later''"
    by auto
  moreover from limiter_rejects_101st [OF a u r refl c0 n0, of up_ok] bad
  have "statusCode (fst (app [] up_ok (req_quote None)
          (delay 5 (snd (serve [] [] (initial 0)))))) = 400"
    by auto
  ultimately show ?thesis using a u r c n by simp
qed

end
